theory Spec2Isabelle
  imports Main
begin

section \<open>The pub/sub core of pubsub-sse\<close>

text \<open>
  A shallow embedding of \<^verbatim>\<open>client.go\<close> (the client, its topic views, subscription and
  the envelope encoders), of the handler's \<^verbatim>\<open>Pub\<close> and of the topic-level \<^verbatim>\<open>Pub\<close>.

  Conventions of the model:
  \<^item> A Go map is a partial function. A \<^verbatim>\<open>range\<close> loop visits the entries in an order
    the Go runtime chooses afresh for every loop; each modelled loop takes that order as
    an explicit list of keys (\<open>go_order\<close> says that the list is an order of the map).
  \<^item> Client objects live in a heap (a list indexed by references): the handler's client
    map and every topic's subscriber map hold references, as the Go maps hold pointers.
  \<^item> A topic object is owned by exactly one map entry (the handler's public map or one
    client's private map), so it is stored in that entry; the public map of a client is
    the handler's (\<^verbatim>\<open>publicTopics: s.publicTopics\<close>).
  \<^item> The channel \<^verbatim>\<open>stream\<close> is the sequence of strings sent on it, oldest first.
    Locks are not modelled: every operation runs to completion alone.
  \<^item> A Go \<^verbatim>\<open>error\<close> result is \<open>error option\<close>, \<open>None\<close> for \<^verbatim>\<open>nil\<close>.
\<close>

subsection \<open>Errors\<close>

datatype error =
    ClientNotExists string        \<comment> \<open>\<^verbatim>\<open>client %s does not exists\<close>\<close>
  | TopicExists string            \<comment> \<open>\<^verbatim>\<open>topic %s already exists\<close>\<close>
  | TopicNotExists string         \<comment> \<open>\<^verbatim>\<open>topic %s does not exists\<close>\<close>
  | NotSubscribed string string   \<comment> \<open>\<^verbatim>\<open>client %s is not subscribed to topic %s\<close>\<close>
  | NotReceving string            \<comment> \<open>\<^verbatim>\<open>client %s is not receving data\<close>\<close>
  | MarshalError                  \<comment> \<open>an error returned by \<^verbatim>\<open>json.Marshal\<close>\<close>
  | IndexOutOfRange               \<comment> \<open>the run-time panic of a slice index out of range\<close>
  | NilDereference                \<comment> \<open>a reference that points to no client object\<close>

subsection \<open>Go maps and their iteration\<close>

definition go_order :: "string list \<Rightarrow> (string \<rightharpoonup> 'v) \<Rightarrow> bool" where
  "go_order ks m \<longleftrightarrow> distinct ks \<and> set ks = dom m"

definition range_vals :: "string list \<Rightarrow> (string \<rightharpoonup> 'v) \<Rightarrow> 'v list" where
  "range_vals ks m = List.map_filter m ks"

text \<open>\<^verbatim>\<open>len(m)\<close>, counted along an order of the map.\<close>

definition len :: "string list \<Rightarrow> (string \<rightharpoonup> 'v) \<Rightarrow> nat" where
  "len ks m = length (range_vals ks m)"

subsection \<open>JSON values and \<^verbatim>\<open>json.Marshal\<close>\<close>

text \<open>
  The payload of an update is an \<^verbatim>\<open>interface{}\<close>. It is modelled by the JSON value the
  library writes for it; an object lists its members in the order the library writes
  them (struct fields in declaration order, map keys sorted). \<open>JUnsupported\<close> stands
  for a value the library refuses (a channel, a function, a NaN).
\<close>

datatype json =
    JNull
  | JBool bool
  | JInt int
  | JString string
  | JArray "json list"
  | JObject "(string \<times> json) list"
  | JUnsupported

definition digit :: "nat \<Rightarrow> char" where
  "digit n = ''0123456789abcdef'' ! (n mod 16)"

fun digits :: "nat \<Rightarrow> string" where
  "digits n = (if n < 10 then [digit n] else digits (n div 10) @ [digit (n mod 10)])"

definition show_int :: "int \<Rightarrow> string" where
  "show_int i = (if i < 0 then CHR ''-'' # digits (nat (- i)) else digits (nat i))"

text \<open>
  String quoting of \<^verbatim>\<open>encoding/json\<close> with HTML escaping on (the default of
  \<^verbatim>\<open>json.Marshal\<close>), as the library does it since Go 1.22. A byte below 0x80 is copied,
  unless it is the double quote or the backslash (written after a backslash), one of
  the control characters with a short form (\<^verbatim>\<open>\b\<close>, \<^verbatim>\<open>\f\<close>, \<^verbatim>\<open>\n\<close>, \<^verbatim>\<open>\r\<close>, \<^verbatim>\<open>\t\<close>), or another
  control character or \<^verbatim>\<open><\<close>, \<^verbatim>\<open>>\<close>, \<^verbatim>\<open>&\<close> (written \<^verbatim>\<open>\u00XX\<close>). From 0x80 on the library decodes
  UTF-8: a byte that starts no well-formed sequence is written \<^verbatim>\<open>\ufffd\<close>, the line and
  paragraph separators U+2028 and U+2029 are written \<^verbatim>\<open>\u2028\<close> and \<^verbatim>\<open>\u2029\<close>, and every
  other well-formed sequence is copied.
\<close>

definition escape_char :: "char \<Rightarrow> string" where
  "escape_char c =
     (let n = (of_char c :: nat) in
      if c = CHR 0x22 then [CHR 0x5C, CHR 0x22]
      else if c = CHR 0x5C then [CHR 0x5C, CHR 0x5C]
      else if c = CHR 0x08 then [CHR 0x5C, CHR ''b'']
      else if c = CHR 0x0C then [CHR 0x5C, CHR ''f'']
      else if c = CHR 0x0A then [CHR 0x5C, CHR ''n'']
      else if c = CHR 0x0D then [CHR 0x5C, CHR ''r'']
      else if c = CHR 0x09 then [CHR 0x5C, CHR ''t'']
      else if n < 32 \<or> c = CHR ''<'' \<or> c = CHR ''>'' \<or> c = CHR ''&''
        then [CHR 0x5C, CHR ''u'', CHR ''0'', CHR ''0'', digit (n div 16), digit (n mod 16)]
      else [c])"

text \<open>
  \<^verbatim>\<open>utf8.DecodeRuneInString\<close>, as far as the quoting needs it: the number of bytes of the
  well-formed sequence at the head of a string that starts with a byte from 0x80 on, and
  0 where the library returns \<^verbatim>\<open>RuneError\<close> with size 1.
\<close>

definition in_range :: "nat \<Rightarrow> nat \<Rightarrow> char \<Rightarrow> bool" where
  "in_range lo hi c \<longleftrightarrow> lo \<le> (of_char c :: nat) \<and> (of_char c :: nat) \<le> hi"

definition rune_size :: "string \<Rightarrow> nat" where
  "rune_size s =
     (case s of
        [] \<Rightarrow> 0
      | a # r \<Rightarrow>
          (let n = (of_char a :: nat) in
           if 0xC2 \<le> n \<and> n \<le> 0xDF then
             (case r of
                b # _ \<Rightarrow> if in_range 0x80 0xBF b then 2 else 0
              | _ \<Rightarrow> 0)
           else if 0xE0 \<le> n \<and> n \<le> 0xEF then
             (case r of
                b # c # _ \<Rightarrow>
                  if in_range (if n = 0xE0 then 0xA0 else 0x80) (if n = 0xED then 0x9F else 0xBF) b
                     \<and> in_range 0x80 0xBF c
                  then 3 else 0
              | _ \<Rightarrow> 0)
           else if 0xF0 \<le> n \<and> n \<le> 0xF4 then
             (case r of
                b # c # d # _ \<Rightarrow>
                  if in_range (if n = 0xF0 then 0x90 else 0x80) (if n = 0xF4 then 0x8F else 0xBF) b
                     \<and> in_range 0x80 0xBF c \<and> in_range 0x80 0xBF d
                  then 4 else 0
              | _ \<Rightarrow> 0)
           else 0))"

fun escape_string :: "string \<Rightarrow> string" where
  "escape_string [] = []"
| "escape_string (c # cs) =
     (if (of_char c :: nat) < 0x80 then escape_char c @ escape_string cs
      else
        (let k = rune_size (c # cs) in
         if k = 0 then [CHR 0x5C] @ ''ufffd'' @ escape_string cs
         else if take 3 (c # cs) = [CHR 0xE2, CHR 0x80, CHR 0xA8]
           then [CHR 0x5C] @ ''u2028'' @ escape_string (drop 2 cs)
         else if take 3 (c # cs) = [CHR 0xE2, CHR 0x80, CHR 0xA9]
           then [CHR 0x5C] @ ''u2029'' @ escape_string (drop 2 cs)
         else take k (c # cs) @ escape_string (drop (k - 1) cs)))"

definition quote :: "string \<Rightarrow> string" where
  "quote s = [CHR 0x22] @ escape_string s @ [CHR 0x22]"

fun intercalate :: "string \<Rightarrow> string list \<Rightarrow> string" where
  "intercalate sep [] = []"
| "intercalate sep [x] = x"
| "intercalate sep (x # y # ys) = x @ sep @ intercalate sep (y # ys)"

fun marshal_json :: "json \<Rightarrow> string option" where
  "marshal_json JNull = Some ''null''"
| "marshal_json (JBool b) = Some (if b then ''true'' else ''false'')"
| "marshal_json (JInt i) = Some (show_int i)"
| "marshal_json (JString s) = Some (quote s)"
| "marshal_json (JArray xs) =
     map_option (\<lambda>ss. ''['' @ intercalate '','' ss @ '']'') (those (map marshal_json xs))"
| "marshal_json (JObject kvs) =
     map_option (\<lambda>ss. ''{'' @ intercalate '','' ss @ ''}'')
       (those (map (\<lambda>(k, v). map_option (\<lambda>s. quote k @ '':'' @ s) (marshal_json v)) kvs))"
| "marshal_json JUnsupported = None"

subsection \<open>The envelope\<close>

text \<open>
  The four structs of the wire frame. Record fields share one name space, so the fields
  \<^verbatim>\<open>Type\<close>, \<^verbatim>\<open>List\<close>, \<^verbatim>\<open>Name\<close>, \<^verbatim>\<open>Topic\<close> and \<^verbatim>\<open>Data\<close> carry the struct as a prefix. A slice
  that the source may leave \<^verbatim>\<open>nil\<close> and that is written without \<^verbatim>\<open>omitempty\<close> is a
  \<open>list option\<close>: \<open>None\<close> is the nil slice (written \<^verbatim>\<open>null\<close>), \<open>Some []\<close> the empty slice
  (written \<^verbatim>\<open>[]\<close>).
\<close>

record eventDataSysList =
  list_Name :: string
  list_Type :: string

record eventDataSys =
  sys_Type :: string
  sys_List :: "eventDataSysList list"

record eventDataUpdates =
  upd_Topic :: string
  upd_Data :: json

record eventData =
  Sys :: "eventDataSys list option"
  Updates :: "eventDataUpdates list option"

definition marshal_SysList :: "eventDataSysList \<Rightarrow> string" where
  "marshal_SysList e =
     ''{'' @ quote ''name'' @ '':'' @ quote (list_Name e)
     @ (if list_Type e = [] then [] else '','' @ quote ''type'' @ '':'' @ quote (list_Type e))
     @ ''}''"

definition marshal_Sys :: "eventDataSys \<Rightarrow> string" where
  "marshal_Sys e =
     ''{'' @ quote ''type'' @ '':'' @ quote (sys_Type e)
     @ (if sys_List e = [] then []
        else '','' @ quote ''list'' @ '':'' @ ''['' @ intercalate '','' (map marshal_SysList (sys_List e)) @ '']'')
     @ ''}''"

definition marshal_Updates :: "eventDataUpdates \<Rightarrow> string option" where
  "marshal_Updates u =
     map_option (\<lambda>d. ''{'' @ quote ''topic'' @ '':'' @ quote (upd_Topic u) @ '','' @ quote ''data'' @ '':'' @ d @ ''}'')
       (marshal_json (upd_Data u))"

definition marshal_slice :: "string list option \<Rightarrow> string" where
  "marshal_slice xs = (case xs of None \<Rightarrow> ''null'' | Some ss \<Rightarrow> ''['' @ intercalate '','' ss @ '']'')"

definition marshal :: "eventData \<Rightarrow> error + string" where
  "marshal d =
     (case (case Updates d of None \<Rightarrow> Some None | Some us \<Rightarrow> map_option Some (those (map marshal_Updates us))) of
        None \<Rightarrow> Inl MarshalError
      | Some us \<Rightarrow>
          Inr (''{'' @ quote ''sys'' @ '':'' @ marshal_slice (map_option (map marshal_Sys) (Sys d))
               @ '','' @ quote ''updates'' @ '':'' @ marshal_slice us @ ''}''))"

subsection \<open>Topics, clients and the handler\<close>

text \<open>
  Modelled from the spec: the declaration of the topic struct and of its type constants
  is not among the sources. The fields are the ones \<^verbatim>\<open>client.go\<close> reads and writes
  (\<^verbatim>\<open>Name\<close>, \<^verbatim>\<open>Type\<close>, \<^verbatim>\<open>Clients\<close>); \<^verbatim>\<open>string(topic.Type)\<close> is the visibility written on
  the wire, \<^verbatim>\<open>"public"\<close>, \<^verbatim>\<open>"private"\<close> or \<^verbatim>\<open>"group"\<close>.
\<close>

type_synonym topicType = string

definition Public :: topicType where
  "Public = ''public''"

definition Private :: topicType where
  "Private = ''private''"

type_synonym cref = nat

record topic =
  Name :: string
  Type :: topicType
  Clients :: "string \<rightharpoonup> cref"

datatype status = Waiting | Receving

record client =
  client_id :: string
  stream :: "string list"
  status :: status
  privateTopics :: "string \<rightharpoonup> topic"

text \<open>
  The handler \<^verbatim>\<open>sSEPubSubHandler\<close> with the heap of the client objects. The fields
  \<^verbatim>\<open>Timeout\<close>, \<^verbatim>\<open>ClientIDQueryParameter\<close> and \<^verbatim>\<open>TopicQueryParameter\<close> are read by the
  HTTP handlers only.
\<close>

record sSEPubSubHandler =
  heap :: "client list"
  clients :: "string \<rightharpoonup> cref"
  publicTopics :: "string \<rightharpoonup> topic"

definition NewSSEPubSubHandler :: sSEPubSubHandler where
  "NewSSEPubSubHandler = \<lparr>heap = [], clients = Map.empty, publicTopics = Map.empty\<rparr>"

text \<open>Writing through a reference to a client object.\<close>

definition set_client :: "cref \<Rightarrow> client \<Rightarrow> sSEPubSubHandler \<Rightarrow> sSEPubSubHandler" where
  "set_client r c s = s\<lparr>heap := (heap s)[r := c]\<rparr>"

text \<open>
  \<^verbatim>\<open>if c.status == Receving { c.stream <- msg }\<close>, the end of every sender of
  \<^verbatim>\<open>client.go\<close>.
\<close>

definition push_if_receving :: "cref \<Rightarrow> string \<Rightarrow> sSEPubSubHandler \<Rightarrow> error option \<times> sSEPubSubHandler" where
  "push_if_receving r msg s =
     (if r < length (heap s) then
        (let c = heap s ! r in
         if status c = Receving then (None, set_client r (c\<lparr>stream := stream c @ [msg]\<rparr>) s)
         else (None, s))
      else (Some NilDereference, s))"

text \<open>\<^verbatim>\<open>append\<close> on a slice that may be nil.\<close>

definition append_slice :: "'a list option \<Rightarrow> 'a \<Rightarrow> 'a list option" where
  "append_slice xs x = (case xs of None \<Rightarrow> Some [x] | Some ys \<Rightarrow> Some (ys @ [x]))"

subsection \<open>Creating and finding clients\<close>

text \<open>\<open>uuid\<close> is the string \<^verbatim>\<open>uuid.New().String()\<close> returns at this call.\<close>

definition NewClient :: "string \<Rightarrow> string \<Rightarrow> sSEPubSubHandler \<Rightarrow> cref \<times> sSEPubSubHandler" where
  "NewClient uuid id0 s =
     (let ident = (if id0 = [] then uuid else id0) in
      case clients s ident of
        Some r \<Rightarrow> (r, s)
      | None \<Rightarrow>
          (let r = length (heap s);
               cl = \<lparr>client_id = ident, stream = [], status = Waiting, privateTopics = Map.empty\<rparr>
           in (r, s\<lparr>heap := heap s @ [cl], clients := (clients s)(ident \<mapsto> r)\<rparr>)))"

definition GetClients :: "sSEPubSubHandler \<Rightarrow> (string \<rightharpoonup> cref)" where
  "GetClients s = clients s"

definition getClient :: "string \<Rightarrow> sSEPubSubHandler \<Rightarrow> error + cref" where
  "getClient ident s =
     (case clients s ident of None \<Rightarrow> Inl (ClientNotExists ident) | Some r \<Rightarrow> Inr r)"

subsection \<open>Topic views\<close>

definition GetTopics :: "string list \<Rightarrow> string list \<Rightarrow> client \<Rightarrow> sSEPubSubHandler \<Rightarrow> (string \<rightharpoonup> topic)" where
  "GetTopics kpub kpriv c s =
     fold (\<lambda>t topics. topics(Name t \<mapsto> t)) (range_vals kpriv (privateTopics c))
       (fold (\<lambda>t topics. topics(Name t \<mapsto> t)) (range_vals kpub (publicTopics s)) Map.empty)"

definition GetSubscribedTopics ::
  "string list \<Rightarrow> string list \<Rightarrow> string list \<Rightarrow> client \<Rightarrow> sSEPubSubHandler \<Rightarrow> (string \<rightharpoonup> topic)" where
  "GetSubscribedTopics kpub kpriv kall c s =
     (let topics = GetTopics kpub kpriv c s in
      fold (\<lambda>t subs. if Clients t (client_id c) \<noteq> None then subs(Name t \<mapsto> t) else subs)
        (range_vals kall topics) Map.empty)"

subsection \<open>The senders\<close>

definition sendUpdate :: "cref \<Rightarrow> topic \<Rightarrow> json \<Rightarrow> sSEPubSubHandler \<Rightarrow> error option \<times> sSEPubSubHandler" where
  "sendUpdate r to dat s =
     (let fulldata = \<lparr>Sys = None, Updates = Some []\<rparr>;
          u = \<lparr>upd_Topic = Name to, upd_Data = dat\<rparr>;
          fulldata = fulldata\<lparr>Updates := append_slice (Updates fulldata) u\<rparr>
      in case marshal fulldata of
           Inl err \<Rightarrow> (Some err, s)
         | Inr jsonData \<Rightarrow> push_if_receving r jsonData s)"

text \<open>
  \<^verbatim>\<open>fulldata.Sys[i].Type = ty; fulldata.Sys[i].List = append(fulldata.Sys[i].List, e)\<close>:
  indexing a slice out of range panics.
\<close>

definition sys_add :: "nat \<Rightarrow> string \<Rightarrow> eventDataSysList \<Rightarrow> eventDataSys list \<Rightarrow> error + eventDataSys list" where
  "sys_add i ty e sys =
     (if i < length sys
      then Inr (sys[i := (sys ! i)\<lparr>sys_Type := ty, sys_List := sys_List (sys ! i) @ [e]\<rparr>])
      else Inl IndexOutOfRange)"

fun sys_loop :: "nat \<Rightarrow> string \<Rightarrow> eventDataSysList list \<Rightarrow> eventDataSys list \<Rightarrow> error + eventDataSys list" where
  "sys_loop i ty [] sys = Inr sys"
| "sys_loop i ty (e # es) sys =
     (case sys_add i ty e sys of Inl err \<Rightarrow> Inl err | Inr sys' \<Rightarrow> sys_loop i ty es sys')"

definition emptySys :: eventDataSys where
  "emptySys = \<lparr>sys_Type = [], sys_List = []\<rparr>"

definition topic_entry :: "topic \<Rightarrow> eventDataSysList" where
  "topic_entry t = \<lparr>list_Name = Name t, list_Type = Type t\<rparr>"

definition name_entry :: "topic \<Rightarrow> eventDataSysList" where
  "name_entry t = \<lparr>list_Name = Name t, list_Type = []\<rparr>"

text \<open>
  The orders, in the order of the loops that run: the two loops of \<^verbatim>\<open>GetTopics\<close>, the
  three of \<^verbatim>\<open>GetSubscribedTopics\<close>, the loop over \<^verbatim>\<open>topics\<close> and the one over
  \<^verbatim>\<open>subtopics\<close>.
\<close>

definition generateInit ::
  "string list \<Rightarrow> string list \<Rightarrow> string list \<Rightarrow> string list \<Rightarrow> string list \<Rightarrow> string list \<Rightarrow> string list
   \<Rightarrow> cref \<Rightarrow> sSEPubSubHandler \<Rightarrow> error + string" where
  "generateInit kpub kpriv kpub' kpriv' kall ktopics ksubs r s =
     (if r < length (heap s) then
        (let c = heap s ! r;
             topics = GetTopics kpub kpriv c s;
             subtopics = GetSubscribedTopics kpub' kpriv' kall c s;
             sys = [];
             sys = (if len ktopics topics > 0 then sys @ [emptySys] else sys);
             sys = (if len ksubs subtopics > 0 then sys @ [emptySys] else sys)
         in case sys_loop 0 ''topics'' (map topic_entry (range_vals ktopics topics)) sys of
              Inl err \<Rightarrow> Inl err
            | Inr sys \<Rightarrow>
                (case sys_loop 1 ''subscribed'' (map name_entry (range_vals ksubs subtopics)) sys of
                   Inl err \<Rightarrow> Inl err
                 | Inr sys \<Rightarrow> marshal \<lparr>Sys = Some sys, Updates = None\<rparr>))
      else Inl NilDereference)"

definition sendNewTopicsList ::
  "string list \<Rightarrow> string list \<Rightarrow> string list \<Rightarrow> cref \<Rightarrow> sSEPubSubHandler \<Rightarrow> error option \<times> sSEPubSubHandler" where
  "sendNewTopicsList kpub kpriv ktopics r s =
     (if r < length (heap s) then
        (let c = heap s ! r;
             topics = GetTopics kpub kpriv c s;
             sys = []
         in case (if len ktopics topics > 0
                  then sys_loop 0 ''topics'' (map topic_entry (range_vals ktopics topics)) (sys @ [emptySys])
                  else Inr sys) of
              Inl err \<Rightarrow> (Some err, s)
            | Inr sys \<Rightarrow>
                (case marshal \<lparr>Sys = Some sys, Updates = None\<rparr> of
                   Inl err \<Rightarrow> (Some err, s)
                 | Inr jsonData \<Rightarrow> push_if_receving r jsonData s))
      else (Some NilDereference, s))"

definition sendNewSubscribedTopic :: "cref \<Rightarrow> topic \<Rightarrow> sSEPubSubHandler \<Rightarrow> error option \<times> sSEPubSubHandler" where
  "sendNewSubscribedTopic r tp s =
     (case sys_add 0 ''subscribed'' (name_entry tp) ([] @ [emptySys]) of
        Inl err \<Rightarrow> (Some err, s)
      | Inr sys \<Rightarrow>
          (case marshal \<lparr>Sys = Some sys, Updates = None\<rparr> of
             Inl err \<Rightarrow> (Some err, s)
           | Inr jsonData \<Rightarrow> push_if_receving r jsonData s))"

definition sendUnsubscribedTopic :: "cref \<Rightarrow> topic \<Rightarrow> sSEPubSubHandler \<Rightarrow> error option \<times> sSEPubSubHandler" where
  "sendUnsubscribedTopic r tp s =
     (case sys_add 0 ''unsubscribed'' (name_entry tp) ([] @ [emptySys]) of
        Inl err \<Rightarrow> (Some err, s)
      | Inr sys \<Rightarrow>
          (case marshal \<lparr>Sys = Some sys, Updates = None\<rparr> of
             Inl err \<Rightarrow> (Some err, s)
           | Inr jsonData \<Rightarrow> push_if_receving r jsonData s))"

subsection \<open>Private topics, subscription and publishing of a client\<close>

definition NewPrivateTopic ::
  "string list \<Rightarrow> string list \<Rightarrow> string list \<Rightarrow> cref \<Rightarrow> string \<Rightarrow> sSEPubSubHandler \<Rightarrow> error option \<times> sSEPubSubHandler" where
  "NewPrivateTopic kpub kpriv ktopics r name s =
     (if r < length (heap s) then
        (let c = heap s ! r in
         if privateTopics c name \<noteq> None then (Some (TopicExists name), s)
         else
           (let tp = \<lparr>Name = name, Type = Private, Clients = Map.empty\<rparr>;
                s' = set_client r (c\<lparr>privateTopics := (privateTopics c)(name \<mapsto> tp)\<rparr>) s
            in (None, snd (sendNewTopicsList kpub kpriv ktopics r s'))))
      else (Some NilDereference, s))"

text \<open>
  \<^verbatim>\<open>Sub\<close> and \<^verbatim>\<open>Unsub\<close> look the name up in the private topics first, then in the public
  ones, and change the subscriber map of the topic object they found; the result of the
  sender is dropped.
\<close>

definition Sub :: "cref \<Rightarrow> string \<Rightarrow> sSEPubSubHandler \<Rightarrow> error option \<times> sSEPubSubHandler" where
  "Sub r name s =
     (if r < length (heap s) then
        (let c = heap s ! r in
         case privateTopics c name of
           Some t \<Rightarrow>
             (let t' = t\<lparr>Clients := (Clients t)(client_id c \<mapsto> r)\<rparr>;
                  s' = set_client r (c\<lparr>privateTopics := (privateTopics c)(name \<mapsto> t')\<rparr>) s
              in (None, snd (sendNewSubscribedTopic r t' s')))
         | None \<Rightarrow>
             (case publicTopics s name of
                Some t \<Rightarrow>
                  (let t' = t\<lparr>Clients := (Clients t)(client_id c \<mapsto> r)\<rparr>;
                       s' = s\<lparr>publicTopics := (publicTopics s)(name \<mapsto> t')\<rparr>
                   in (None, snd (sendNewSubscribedTopic r t' s')))
              | None \<Rightarrow> (Some (TopicNotExists name), s)))
      else (Some NilDereference, s))"

definition Unsub :: "cref \<Rightarrow> string \<Rightarrow> sSEPubSubHandler \<Rightarrow> error option \<times> sSEPubSubHandler" where
  "Unsub r name s =
     (if r < length (heap s) then
        (let c = heap s ! r in
         case privateTopics c name of
           Some t \<Rightarrow>
             (if Clients t (client_id c) = None then (Some (NotSubscribed (client_id c) name), s)
              else
                (let t' = t\<lparr>Clients := (Clients t)(client_id c := None)\<rparr>;
                     s' = set_client r (c\<lparr>privateTopics := (privateTopics c)(name \<mapsto> t')\<rparr>) s
                 in (None, snd (sendUnsubscribedTopic r t' s'))))
         | None \<Rightarrow>
             (case publicTopics s name of
                Some t \<Rightarrow>
                  (if Clients t (client_id c) = None then (Some (NotSubscribed (client_id c) name), s)
                   else
                     (let t' = t\<lparr>Clients := (Clients t)(client_id c := None)\<rparr>;
                          s' = s\<lparr>publicTopics := (publicTopics s)(name \<mapsto> t')\<rparr>
                      in (None, snd (sendUnsubscribedTopic r t' s'))))
              | None \<Rightarrow> (Some (TopicNotExists name), s)))
      else (Some NilDereference, s))"

definition client_Pub :: "cref \<Rightarrow> string \<Rightarrow> json \<Rightarrow> sSEPubSubHandler \<Rightarrow> error option \<times> sSEPubSubHandler" where
  "client_Pub r to message s =
     (if r < length (heap s) then
        (let c = heap s ! r in
         if status c = Waiting then (Some (NotReceving (client_id c)), s)
         else
           (case privateTopics c to of
              None \<Rightarrow> (Some (TopicNotExists to), s)
            | Some t \<Rightarrow> sendUpdate r t message s))
      else (Some NilDereference, s))"

subsection \<open>Removing a client\<close>

definition unsub_all :: "cref \<Rightarrow> topic list \<Rightarrow> sSEPubSubHandler \<Rightarrow> sSEPubSubHandler" where
  "unsub_all r ts s = fold (\<lambda>t s. snd (Unsub r (Name t) s)) ts s"

definition RemoveClient :: "string list \<Rightarrow> string list \<Rightarrow> string \<Rightarrow> sSEPubSubHandler \<Rightarrow> error option \<times> sSEPubSubHandler" where
  "RemoveClient kpriv kpub ident s =
     (case getClient ident s of
        Inl err \<Rightarrow> (Some err, s)
      | Inr r \<Rightarrow>
          (if r < length (heap s) then
             (let s1 = unsub_all r (range_vals kpriv (privateTopics (heap s ! r))) s;
                  s2 = unsub_all r (range_vals kpub (publicTopics s1)) s1
              in (None, s2\<lparr>clients := (clients s2)(ident := None)\<rparr>))
           else (Some NilDereference, s)))"

subsection \<open>Publishing on a public topic\<close>

text \<open>
  The handler's \<^verbatim>\<open>Pub\<close>. The method \<^verbatim>\<open>generateUpdateData\<close> it calls is not among the
  sources and is a parameter here: \<open>gen c t message\<close> is what the call returns for the
  client object \<open>c\<close>. The loop sends on the stream of every subscriber it reaches and
  returns at the first error of \<open>gen\<close>.
\<close>

fun pub_loop ::
  "(client \<Rightarrow> topic \<Rightarrow> json \<Rightarrow> error + string) \<Rightarrow> topic \<Rightarrow> json \<Rightarrow> cref list
   \<Rightarrow> sSEPubSubHandler \<Rightarrow> error option \<times> sSEPubSubHandler" where
  "pub_loop gen t message [] s = (None, s)"
| "pub_loop gen t message (r # rs) s =
     (if r < length (heap s) then
        (let c = heap s ! r in
         case gen c t message of
           Inl err \<Rightarrow> (Some err, s)
         | Inr jsonMessage \<Rightarrow>
             pub_loop gen t message rs (set_client r (c\<lparr>stream := stream c @ [jsonMessage]\<rparr>) s))
      else (Some NilDereference, s))"

definition handler_Pub ::
  "(client \<Rightarrow> topic \<Rightarrow> json \<Rightarrow> error + string) \<Rightarrow> string list \<Rightarrow> string \<Rightarrow> json
   \<Rightarrow> sSEPubSubHandler \<Rightarrow> error option \<times> sSEPubSubHandler" where
  "handler_Pub gen ks tname message s =
     (case publicTopics s tname of
        None \<Rightarrow> (Some (TopicNotExists tname), s)
      | Some t \<Rightarrow> pub_loop gen t message (range_vals ks (Clients t)) s)"

text \<open>
  Modelled from the spec: \<^verbatim>\<open>generateUpdateData\<close> is not among the sources. The spec has
  a publish encode the update envelope of the topic's name and the data; this is the
  envelope \<^verbatim>\<open>sendUpdate\<close> builds.
\<close>

definition generateUpdateData :: "client \<Rightarrow> topic \<Rightarrow> json \<Rightarrow> error + string" where
  "generateUpdateData c t message =
     marshal \<lparr>Sys = None, Updates = Some [\<lparr>upd_Topic = Name t, upd_Data = message\<rparr>]\<rparr>"

subsection \<open>The topic-level \<^verbatim>\<open>Pub\<close>\<close>

text \<open>
  The later \<^verbatim>\<open>Topic\<close> struct with \<^verbatim>\<open>GetName\<close>, \<^verbatim>\<open>GetClients\<close> and \<^verbatim>\<open>Pub\<close>. Its client type
  and the method \<^verbatim>\<open>send\<close> are not among the sources: the clients are values of a type
  \<open>'c\<close>, and \<open>send c fulldata w\<close> is the result of the call and the world \<open>'w\<close> it leaves
  (the queues of the clients, whatever they are). The log is the list of the topic
  names and errors that \<^verbatim>\<open>log.Errorf\<close> is given.
\<close>

record 'c Topic =
  Topic_name :: string
  Topic_id :: string
  Topic_ttype :: string
  Topic_clients :: "string \<rightharpoonup> 'c"






subsection \<open>Observations and example states\<close>

text \<open>
  The topic a name stands for on a client: the lookup at the head of \<^verbatim>\<open>Sub\<close> and
  \<^verbatim>\<open>Unsub\<close>, private topics first, then public ones.
\<close>

definition resolve :: "cref \<Rightarrow> string \<Rightarrow> sSEPubSubHandler \<Rightarrow> topic option" where
  "resolve r name s =
     (case privateTopics (heap s ! r) name of Some t \<Rightarrow> Some t | None \<Rightarrow> publicTopics s name)"

text \<open>
  A handler with the public topic \<^verbatim>\<open>news\<close> and one client \<^verbatim>\<open>c1\<close> of the given status, the
  topic having the given subscribers.
\<close>

definition ex_hub :: "status \<Rightarrow> (string \<rightharpoonup> cref) \<Rightarrow> sSEPubSubHandler" where
  "ex_hub st subs =
     \<lparr>heap = [\<lparr>client_id = ''c1'', stream = [], status = st, privateTopics = Map.empty\<rparr>],
      clients = [''c1'' \<mapsto> 0],
      publicTopics = [''news'' \<mapsto> \<lparr>Name = ''news'', Type = Public, Clients = subs\<rparr>]\<rparr>"

text \<open>A handler whose only client \<^verbatim>\<open>c1\<close> sees no topic at all.\<close>

definition ex_empty :: sSEPubSubHandler where
  "ex_empty = snd (NewClient [] ''c1'' NewSSEPubSubHandler)"

text \<open>
  Scenario A on the receiving client \<^verbatim>\<open>c1\<close>: the handler after
  \<^verbatim>\<open>NewPrivateTopic("orders")\<close>, and after \<^verbatim>\<open>Sub("orders")\<close>.
\<close>

definition scenario_s1 :: sSEPubSubHandler where
  "scenario_s1 =
     snd (NewPrivateTopic [''news''] [''orders''] [''news'', ''orders''] 0 ''orders''
            (ex_hub Receving Map.empty))"

definition scenario_s2 :: sSEPubSubHandler where
  "scenario_s2 = snd (Sub 0 ''orders'' scenario_s1)"

text \<open>Two receiving clients, both subscribed to the public topic \<^verbatim>\<open>news\<close>.\<close>

definition ex_hub2 :: sSEPubSubHandler where
  "ex_hub2 =
     \<lparr>heap = [\<lparr>client_id = ''c1'', stream = [], status = Receving, privateTopics = Map.empty\<rparr>,
              \<lparr>client_id = ''c2'', stream = [], status = Receving, privateTopics = Map.empty\<rparr>],
      clients = [''c1'' \<mapsto> 0, ''c2'' \<mapsto> 1],
      publicTopics =
        [''news'' \<mapsto> \<lparr>Name = ''news'', Type = Public, Clients = [''c1'' \<mapsto> 0, ''c2'' \<mapsto> 1]\<rparr>]\<rparr>"

text \<open>
  A handler with the public topic \<^verbatim>\<open>x\<close> and no client, and what it becomes when a new
  client \<^verbatim>\<open>c1\<close> subscribes to \<^verbatim>\<open>x\<close> and then creates a private topic of the same name.
\<close>

definition hub_x :: sSEPubSubHandler where
  "hub_x = \<lparr>heap = [], clients = Map.empty,
            publicTopics = [''x'' \<mapsto> \<lparr>Name = ''x'', Type = Public, Clients = Map.empty\<rparr>]\<rparr>"

definition shadow_s1 :: sSEPubSubHandler where
  "shadow_s1 = snd (NewClient [] ''c1'' hub_x)"

definition shadow_s2 :: sSEPubSubHandler where
  "shadow_s2 = snd (Sub 0 ''x'' shadow_s1)"

definition shadow_s3 :: sSEPubSubHandler where
  "shadow_s3 = snd (NewPrivateTopic [''x''] [''x''] [''x''] 0 ''x'' shadow_s2)"

text \<open>
  The handler after \<^verbatim>\<open>RemoveClient("c1")\<close>, and after a new client has then been created
  under the same id: the public topic \<^verbatim>\<open>x\<close> still lists the id, bound to the old object.
\<close>

definition shadow_s4 :: sSEPubSubHandler where
  "shadow_s4 = snd (RemoveClient [''x''] [''x''] ''c1'' shadow_s3)"

definition shadow_s5 :: sSEPubSubHandler where
  "shadow_s5 = snd (NewClient [] ''c1'' shadow_s4)"

text \<open>
  A topic of the later kind with two clients, and a \<^verbatim>\<open>send\<close> that fails for the client
  \<^verbatim>\<open>c1\<close>; the world is the list of the clients \<^verbatim>\<open>send\<close> was called for.
\<close>

definition ex_Topic :: "string Topic" where
  "ex_Topic = \<lparr>Topic_name = ''news'', Topic_id = ''t1'', Topic_ttype = ''public'',
               Topic_clients = [''c1'' \<mapsto> ''c1'', ''c2'' \<mapsto> ''c2'']\<rparr>"

definition ex_send :: "string \<Rightarrow> eventData \<Rightarrow> string list \<Rightarrow> error option \<times> string list" where
  "ex_send c fulldata w = (if c = ''c1'' then Some (NotReceving c) else None, w @ [c])"

section \<open>Properties\<close>

subsection \<open>Evaluation and frames\<close>

lemmas eval_defs =
  NewClient_def Sub_def Unsub_def NewPrivateTopic_def client_Pub_def RemoveClient_def getClient_def
  unsub_all_def sendNewTopicsList_def sendNewSubscribedTopic_def sendUnsubscribedTopic_def sendUpdate_def
  generateInit_def GetTopics_def GetSubscribedTopics_def range_vals_def len_def List.map_filter_simps
  push_if_receving_def set_client_def append_slice_def sys_add_def emptySys_def topic_entry_def
  name_entry_def marshal_def marshal_slice_def marshal_Sys_def marshal_SysList_def marshal_Updates_def
  quote_def escape_char_def show_int_def digit_def Let_def Public_def Private_def go_order_def
  handler_Pub_def generateUpdateData_def NewSSEPubSubHandler_def resolve_def ex_hub_def

lemmas ex_defs =
  ex_empty_def scenario_s1_def scenario_s2_def ex_hub2_def hub_x_def shadow_s1_def shadow_s2_def
  shadow_s3_def

lemmas ex_defs2 = ex_defs shadow_s4_def shadow_s5_def ex_Topic_def ex_send_def

lemma quote_keys:
  "quote ''sys'' = [CHR 0x22] @ ''sys'' @ [CHR 0x22]"
  "quote ''updates'' = [CHR 0x22] @ ''updates'' @ [CHR 0x22]"
  "quote ''type'' = [CHR 0x22] @ ''type'' @ [CHR 0x22]"
  "quote ''list'' = [CHR 0x22] @ ''list'' @ [CHR 0x22]"
  "quote ''name'' = [CHR 0x22] @ ''name'' @ [CHR 0x22]"
  "quote ''topic'' = [CHR 0x22] @ ''topic'' @ [CHR 0x22]"
  "quote ''data'' = [CHR 0x22] @ ''data'' @ [CHR 0x22]"
  "quote ''topics'' = [CHR 0x22] @ ''topics'' @ [CHR 0x22]"
  "quote ''subscribed'' = [CHR 0x22] @ ''subscribed'' @ [CHR 0x22]"
  "quote ''unsubscribed'' = [CHR 0x22] @ ''unsubscribed'' @ [CHR 0x22]"
  by (simp_all add: quote_def escape_char_def)

text \<open>A frame without updates always marshals: only the payload of an update can fail.\<close>

lemma marshal_sys_only:
  \<open>marshal \<lparr>Sys = Some sys, Updates = None\<rparr>
     = Inr (''{"sys":['' @ intercalate '','' (map marshal_Sys sys) @ ''],"updates":null}'')\<close>
  by (simp add: marshal_def marshal_slice_def quote_keys)

lemma sendNewSubscribedTopic_eq:
  \<open>sendNewSubscribedTopic r t s =
     push_if_receving r
       (''{"sys":[{"type":"subscribed","list":[{"name":'' @ quote (Name t) @ ''}]}],"updates":null}'') s\<close>
  by (simp add: sendNewSubscribedTopic_def sys_add_def emptySys_def name_entry_def marshal_sys_only
      marshal_Sys_def marshal_SysList_def quote_keys)

lemma sendUnsubscribedTopic_eq:
  \<open>sendUnsubscribedTopic r t s =
     push_if_receving r
       (''{"sys":[{"type":"unsubscribed","list":[{"name":'' @ quote (Name t) @ ''}]}],"updates":null}'') s\<close>
  by (simp add: sendUnsubscribedTopic_def sys_add_def emptySys_def name_entry_def marshal_sys_only
      marshal_Sys_def marshal_SysList_def quote_keys)

lemma sendUpdate_eq:
  \<open>sendUpdate r t d s =
     (case marshal_json d of
        None \<Rightarrow> (Some MarshalError, s)
      | Some j \<Rightarrow>
          push_if_receving r
            (''{"sys":null,"updates":[{"topic":'' @ quote (Name t) @ '',"data":'' @ j @ ''}]}'') s)\<close>
  by (simp add: sendUpdate_def append_slice_def marshal_def marshal_slice_def marshal_Updates_def
      quote_keys split: option.splits)

subsection \<open>What a push leaves alone\<close>

lemma push_fst: "r < length (heap s) \<Longrightarrow> fst (push_if_receving r m s) = None"
  by (simp add: push_if_receving_def Let_def)

lemma push_snd:
  "r < length (heap s) \<Longrightarrow>
   snd (push_if_receving r m s) =
     (if status (heap s ! r) = Receving
      then set_client r ((heap s ! r)\<lparr>stream := stream (heap s ! r) @ [m]\<rparr>) s else s)"
  by (simp add: push_if_receving_def Let_def)

lemma push_fields [simp]:
  "publicTopics (snd (push_if_receving r m s)) = publicTopics s"
  "clients (snd (push_if_receving r m s)) = clients s"
  "length (heap (snd (push_if_receving r m s))) = length (heap s)"
  "privateTopics (heap (snd (push_if_receving r m s)) ! q) = privateTopics (heap s ! q)"
  "client_id (heap (snd (push_if_receving r m s)) ! q) = client_id (heap s ! q)"
  "status (heap (snd (push_if_receving r m s)) ! q) = status (heap s ! q)"
  by (auto simp: push_if_receving_def Let_def set_client_def nth_list_update)

lemma set_client_fields [simp]:
  "publicTopics (set_client r c s) = publicTopics s"
  "clients (set_client r c s) = clients s"
  "length (heap (set_client r c s)) = length (heap s)"
  "r < length (heap s) \<Longrightarrow> heap (set_client r c s) ! r = c"
  "q \<noteq> r \<Longrightarrow> heap (set_client r c s) ! q = heap s ! q"
  by (auto simp: set_client_def)

lemma push_other:
  "q \<noteq> r \<Longrightarrow> heap (snd (push_if_receving r m s)) ! q = heap s ! q"
  by (simp add: push_if_receving_def Let_def set_client_def)

lemma resolve_push [simp]:
  "resolve r name (snd (push_if_receving q m s)) = resolve r name s"
  by (simp add: resolve_def split: option.splits)

lemma set_client_same: "r < length (heap s) \<Longrightarrow> set_client r (heap s ! r) s = s"
  by (simp add: set_client_def)

subsection \<open>Subscribing and unsubscribing\<close>

lemma Sub_result:
  assumes "r < length (heap s)" and "Sub r name s = (None, s1)"
  shows "\<exists>t. resolve r name s = Some t
           \<and> resolve r name s1 = Some (t\<lparr>Clients := (Clients t)(client_id (heap s ! r) \<mapsto> r)\<rparr>)
           \<and> length (heap s1) = length (heap s)
           \<and> client_id (heap s1 ! r) = client_id (heap s ! r)
           \<and> status (heap s1 ! r) = status (heap s ! r)"
proof (cases "privateTopics (heap s ! r) name")
  case None
  then show ?thesis
    using assms
    by (auto simp: Sub_def Let_def resolve_def sendNewSubscribedTopic_eq split: option.splits)
next
  case (Some t)
  then show ?thesis
    using assms
    by (auto simp: Sub_def Let_def resolve_def sendNewSubscribedTopic_eq split: option.splits)
qed

lemma Unsub_result:
  assumes "r < length (heap s)" and "resolve r name s = Some t"
  shows "Clients t (client_id (heap s ! r)) = None \<Longrightarrow>
           Unsub r name s = (Some (NotSubscribed (client_id (heap s ! r)) name), s)"
    and "Clients t (client_id (heap s ! r)) \<noteq> None \<Longrightarrow>
           fst (Unsub r name s) = None
           \<and> resolve r name (snd (Unsub r name s))
               = Some (t\<lparr>Clients := (Clients t)(client_id (heap s ! r) := None)\<rparr>)
           \<and> length (heap (snd (Unsub r name s))) = length (heap s)
           \<and> client_id (heap (snd (Unsub r name s)) ! r) = client_id (heap s ! r)"
  using assms
  by (auto simp: Unsub_def Let_def resolve_def sendUnsubscribedTopic_eq split: option.splits)

subsection \<open>Ranges and topic views\<close>

lemma sys_loop_ok:
  "i < length sys \<Longrightarrow> \<exists>sys'. sys_loop i ty es sys = Inr sys' \<and> length sys' = length sys"
proof (induction es arbitrary: sys)
  case Nil
  then show ?case by simp
next
  case (Cons e es)
  let ?sys = "sys[i := (sys ! i)\<lparr>sys_Type := ty, sys_List := sys_List (sys ! i) @ [e]\<rparr>]"
  have "i < length ?sys" using Cons.prems by simp
  from Cons.IH [OF this] Cons.prems show ?case by (simp add: sys_add_def)
qed

lemma range_vals_Nil_iff:
  "go_order ks m \<Longrightarrow> range_vals ks m = [] \<longleftrightarrow> dom m = {}"
  unfolding go_order_def range_vals_def List.map_filter_def
  by (auto simp: filter_empty_conv dom_def)

text \<open>Along an order of the map, \<open>len\<close> is the number of its entries.\<close>

lemma len_card:
  assumes "go_order ks m"
  shows "len ks m = card (dom m)"
proof -
  from assms have d: "distinct ks" and s: "set ks = dom m" by (simp_all add: go_order_def)
  have "filter (\<lambda>k. m k \<noteq> None) ks = ks"
    using s by (auto simp: filter_id_conv dom_def)
  then have "len ks m = length ks"
    by (simp add: len_def range_vals_def List.map_filter_def)
  also have "\<dots> = card (set ks)" using d by (simp add: distinct_card)
  finally show ?thesis using s by simp
qed

lemma range_vals_mem:
  "t \<in> set (range_vals ks m) \<Longrightarrow> \<exists>k. m k = Some t"
  unfolding range_vals_def List.map_filter_def by auto

lemma range_vals_nonempty:
  assumes "range_vals ks m \<noteq> []"
  shows "\<exists>k t. m k = Some t"
proof -
  from assms obtain t where "t \<in> set (range_vals ks m)"
    by (cases "range_vals ks m") auto
  from range_vals_mem [OF this] show ?thesis by blast
qed

lemma range_vals_nonempty_dom: "range_vals ks m \<noteq> [] \<Longrightarrow> dom m \<noteq> {}"
  by (auto dest!: range_vals_nonempty)

lemma fold_put_dom:
  "dom (fold (\<lambda>t topics. topics(Name t \<mapsto> t)) ts m) = dom m \<union> Name ` set ts"
  by (induction ts arbitrary: m) auto

lemma GetTopics_dom:
  "dom (GetTopics kpub kpriv c s) =
     Name ` set (range_vals kpub (publicTopics s)) \<union> Name ` set (range_vals kpriv (privateTopics c))"
  by (auto simp: GetTopics_def fold_put_dom)

lemma fold_sub_ran:
  "fold (\<lambda>t subs. if P t then subs(Name t \<mapsto> t) else subs) ts m k = Some t
   \<Longrightarrow> m k = Some t \<or> t \<in> set ts"
proof (induction ts arbitrary: m)
  case Nil
  then show ?case by simp
next
  case (Cons a ts)
  from Cons.prems
  have "fold (\<lambda>t subs. if P t then subs(Name t \<mapsto> t) else subs) ts
          (if P a then m(Name a \<mapsto> a) else m) k = Some t"
    by (simp only: fold.simps o_apply)
  from Cons.IH [OF this] show ?case by (auto split: if_splits)
qed

text \<open>
  \<^verbatim>\<open>GetTopics\<close> stores every topic under its name, and the subscribed topics are some
  of the topics.
\<close>

lemma fold_put_key:
  assumes "fold (\<lambda>t topics. topics(Name t \<mapsto> t)) ts m k = Some t"
    and "\<forall>k t. m k = Some t \<longrightarrow> Name t = k"
  shows "Name t = k"
  using assms
proof (induction ts arbitrary: m)
  case Nil
  then show ?case by simp
next
  case (Cons a ts)
  from Cons.prems(1)
  have 1: "fold (\<lambda>t topics. topics(Name t \<mapsto> t)) ts (m(Name a \<mapsto> a)) k = Some t"
    by (simp only: fold.simps o_apply)
  have 2: "\<forall>k t. (m(Name a \<mapsto> a)) k = Some t \<longrightarrow> Name t = k"
    using Cons.prems(2) by auto
  from Cons.IH [OF 1 2] show ?case .
qed

lemma GetTopics_key: "GetTopics kpub kpriv c s k = Some t \<Longrightarrow> Name t = k"
  unfolding GetTopics_def
  by (erule fold_put_key) (auto dest: fold_put_key)

lemma fold_sub_le:
  assumes "\<forall>t \<in> set ts. topics (Name t) = Some t" and "m \<subseteq>\<^sub>m topics"
  shows "fold (\<lambda>t subs. if P t then subs(Name t \<mapsto> t) else subs) ts m \<subseteq>\<^sub>m topics"
  using assms
proof (induction ts arbitrary: m)
  case Nil
  then show ?case by simp
next
  case (Cons a ts)
  have "(if P a then m(Name a \<mapsto> a) else m) \<subseteq>\<^sub>m topics"
    using Cons.prems by (auto simp: map_le_def)
  with Cons.IH [of "if P a then m(Name a \<mapsto> a) else m"] Cons.prems(1)
  show ?case by (simp only: fold.simps o_apply) simp
qed

lemma GetSubscribedTopics_le:
  "GetSubscribedTopics kpub kpriv kall c s \<subseteq>\<^sub>m GetTopics kpub kpriv c s"
proof -
  have "\<forall>t \<in> set (range_vals kall (GetTopics kpub kpriv c s)). GetTopics kpub kpriv c s (Name t) = Some t"
    by (auto dest!: range_vals_mem dest: GetTopics_key)
  then show ?thesis
    unfolding GetSubscribedTopics_def Let_def by (rule fold_sub_le) simp
qed

text \<open>A subscribed topic is one of the topics, so it comes from one of the client's maps.\<close>

lemma GetSubscribedTopics_nonempty:
  assumes "GetSubscribedTopics kpub kpriv kall c s k = Some t"
  shows "range_vals kpub (publicTopics s) \<noteq> [] \<or> range_vals kpriv (privateTopics c) \<noteq> []"
proof -
  from assms have "t \<in> set (range_vals kall (GetTopics kpub kpriv c s))"
    by (auto simp: GetSubscribedTopics_def Let_def dest: fold_sub_ran)
  then obtain k' where "GetTopics kpub kpriv c s k' = Some t" by (auto dest: range_vals_mem)
  then have "k' \<in> dom (GetTopics kpub kpriv c s)" by auto
  then show ?thesis unfolding GetTopics_dom by auto
qed

lemma subs_imply_topics:
  assumes "go_order kpub (publicTopics s)" and "go_order kpriv (privateTopics c)"
    and "go_order ktopics (GetTopics kpub kpriv c s)"
    and "range_vals ksubs (GetSubscribedTopics kpub' kpriv' kall c s) \<noteq> []"
  shows "range_vals ktopics (GetTopics kpub kpriv c s) \<noteq> []"
proof -
  from assms(4) obtain k t where "GetSubscribedTopics kpub' kpriv' kall c s k = Some t"
    by (auto dest!: range_vals_nonempty)
  then have "range_vals kpub' (publicTopics s) \<noteq> [] \<or> range_vals kpriv' (privateTopics c) \<noteq> []"
    by (rule GetSubscribedTopics_nonempty)
  then have "dom (publicTopics s) \<noteq> {} \<or> dom (privateTopics c) \<noteq> {}"
    by (auto dest: range_vals_nonempty_dom)
  then have "range_vals kpub (publicTopics s) \<noteq> [] \<or> range_vals kpriv (privateTopics c) \<noteq> []"
    using assms(1,2) by (simp add: range_vals_Nil_iff)
  then have "dom (GetTopics kpub kpriv c s) \<noteq> {}"
    unfolding GetTopics_dom by (auto simp: neq_Nil_conv)
  then show ?thesis using assms(3) by (simp add: range_vals_Nil_iff)
qed

subsection \<open>The frames of the encoders\<close>

lemma push_stream:
  "r < length (heap s) \<Longrightarrow>
   stream (heap (snd (push_if_receving r m s)) ! q) =
     (if q = r \<and> status (heap s ! r) = Receving then stream (heap s ! r) @ [m]
      else stream (heap s ! q))"
  by (auto simp: push_if_receving_def Let_def set_client_def nth_list_update)

lemma sys_loop_eq:
  "i < length sys \<Longrightarrow>
   sys_loop i ty es sys =
     Inr (if es = [] then sys
          else sys[i := (sys ! i)\<lparr>sys_Type := ty, sys_List := sys_List (sys ! i) @ es\<rparr>])"
proof (induction es arbitrary: sys)
  case Nil
  then show ?case by simp
next
  case (Cons e es)
  let ?sys = "sys[i := (sys ! i)\<lparr>sys_Type := ty, sys_List := sys_List (sys ! i) @ [e]\<rparr>]"
  have "i < length ?sys" using Cons.prems by simp
  from Cons.IH [OF this] Cons.prems show ?case by (simp add: sys_add_def)
qed

lemma sendNewTopicsList_eq:
  assumes "r < length (heap s)"
  shows \<open>sendNewTopicsList kpub kpriv ktopics r s =
     push_if_receving r
       (''{"sys":['' @ intercalate '',''
          (map marshal_Sys
             (if range_vals ktopics (GetTopics kpub kpriv (heap s ! r) s) = [] then []
              else [\<lparr>sys_Type = ''topics'',
                     sys_List = map topic_entry
                       (range_vals ktopics (GetTopics kpub kpriv (heap s ! r) s))\<rparr>]))
          @ ''],"updates":null}'') s\<close>
  using assms
  by (simp add: sendNewTopicsList_def Let_def len_def sys_loop_eq marshal_sys_only emptySys_def)

lemma sendNewTopicsList_cases:
  "(\<exists>e. sendNewTopicsList kpub kpriv ktopics r s = (Some e, s))
   \<or> (\<exists>m. sendNewTopicsList kpub kpriv ktopics r s = push_if_receving r m s)"
  by (auto simp: sendNewTopicsList_def Let_def split: sum.splits)

lemma sendNewTopicsList_fields [simp]:
  "publicTopics (snd (sendNewTopicsList kpub kpriv ktopics r s)) = publicTopics s"
  "clients (snd (sendNewTopicsList kpub kpriv ktopics r s)) = clients s"
  "length (heap (snd (sendNewTopicsList kpub kpriv ktopics r s))) = length (heap s)"
  "privateTopics (heap (snd (sendNewTopicsList kpub kpriv ktopics r s)) ! q) = privateTopics (heap s ! q)"
  "client_id (heap (snd (sendNewTopicsList kpub kpriv ktopics r s)) ! q) = client_id (heap s ! q)"
  "status (heap (snd (sendNewTopicsList kpub kpriv ktopics r s)) ! q) = status (heap s ! q)"
  using sendNewTopicsList_cases [of kpub kpriv ktopics r s] by auto

text \<open>Every sender of \<^verbatim>\<open>client.go\<close> leaves the handler alone while the client waits.\<close>

lemma senders_waiting:
  assumes "r < length (heap s)" and "status (heap s ! r) = Waiting"
  shows "sendNewSubscribedTopic r t s = (None, s)"
    and "sendUnsubscribedTopic r t s = (None, s)"
    and "sendNewTopicsList kpub kpriv ktopics r s = (None, s)"
    and "snd (sendUpdate r t d s) = s"
  using assms
  by (auto simp: sendNewSubscribedTopic_eq sendUnsubscribedTopic_eq sendNewTopicsList_eq sendUpdate_eq
      push_if_receving_def Let_def split: option.splits)

lemma GetTopics_agree:
  assumes "privateTopics c = privateTopics c'" and "publicTopics s = publicTopics s'"
  shows "GetTopics kpub kpriv c s = GetTopics kpub kpriv c' s'"
  using assms by (simp add: GetTopics_def)

lemma GetSubscribedTopics_agree:
  assumes "client_id c = client_id c'"
    and "privateTopics c = privateTopics c'" and "publicTopics s = publicTopics s'"
  shows "GetSubscribedTopics kpub kpriv kall c s = GetSubscribedTopics kpub kpriv kall c' s'"
  using assms(1) unfolding GetSubscribedTopics_def GetTopics_agree [OF assms(2,3)] by simp

lemma generateInit_agree:
  assumes "r < length (heap s)" and "r' < length (heap s')"
    and "client_id (heap s ! r) = client_id (heap s' ! r')"
    and "privateTopics (heap s ! r) = privateTopics (heap s' ! r')"
    and "publicTopics s = publicTopics s'"
  shows "generateInit kpub kpriv kpub' kpriv' kall ktopics ksubs r s
       = generateInit kpub kpriv kpub' kpriv' kall ktopics ksubs r' s'"
  unfolding generateInit_def Let_def GetTopics_agree [OF assms(4,5)]
    GetSubscribedTopics_agree [OF assms(3,4,5)]
  using assms(1,2) by simp

lemma range_vals_empty [simp]: "range_vals ks Map.empty = []"
  by (induction ks) (simp_all add: range_vals_def List.map_filter_simps)

lemma generateInit_no_topics:
  assumes "r < length (heap s)" and "publicTopics s = Map.empty"
    and "privateTopics (heap s ! r) = Map.empty"
  shows \<open>generateInit kpub kpriv kpub' kpriv' kall ktopics ksubs r s = Inr ''{"sys":[],"updates":null}''\<close>
  using assms
  by (simp add: generateInit_def GetTopics_def GetSubscribedTopics_def Let_def len_def marshal_sys_only)

text \<open>The frames of \<^verbatim>\<open>generateInit\<close> and \<^verbatim>\<open>sendNewTopicsList\<close>, written out.\<close>

lemma marshal_topic_entry:
  \<open>marshal_SysList (topic_entry t) =
     ''{"name":'' @ quote (Name t) @ (if Type t = [] then [] else '',"type":'' @ quote (Type t)) @ ''}''\<close>
  by (simp add: marshal_SysList_def topic_entry_def quote_keys)

lemma marshal_name_entry:
  \<open>marshal_SysList (name_entry t) = ''{"name":'' @ quote (Name t) @ ''}''\<close>
  by (simp add: marshal_SysList_def name_entry_def quote_keys)

lemma marshal_Sys_list:
  \<open>es \<noteq> [] \<Longrightarrow>
   marshal_Sys \<lparr>sys_Type = ty, sys_List = es\<rparr> =
     ''{"type":'' @ quote ty @ '',"list":['' @ intercalate '','' (map marshal_SysList es) @ '']}''\<close>
  by (simp add: marshal_Sys_def quote_keys)

lemma generateInit_eq:
  assumes "r < length (heap s)"
    and "range_vals ksubs (GetSubscribedTopics kpub' kpriv' kall (heap s ! r) s) \<noteq> []
         \<Longrightarrow> range_vals ktopics (GetTopics kpub kpriv (heap s ! r) s) \<noteq> []"
  shows \<open>generateInit kpub kpriv kpub' kpriv' kall ktopics ksubs r s =
     Inr (''{"sys":['' @ intercalate '',''
            ((if range_vals ktopics (GetTopics kpub kpriv (heap s ! r) s) = [] then []
              else [''{"type":"topics","list":['' @ intercalate '',''
                      (map (\<lambda>t. ''{"name":'' @ quote (Name t)
                                  @ (if Type t = [] then [] else '',"type":'' @ quote (Type t)) @ ''}'')
                         (range_vals ktopics (GetTopics kpub kpriv (heap s ! r) s))) @ '']}''])
             @ (if range_vals ksubs (GetSubscribedTopics kpub' kpriv' kall (heap s ! r) s) = [] then []
                else [''{"type":"subscribed","list":['' @ intercalate '',''
                        (map (\<lambda>t. ''{"name":'' @ quote (Name t) @ ''}'')
                           (range_vals ksubs (GetSubscribedTopics kpub' kpriv' kall (heap s ! r) s)))
                        @ '']}'']))
          @ ''],"updates":null}'')\<close>
proof -
  let ?T = "range_vals ktopics (GetTopics kpub kpriv (heap s ! r) s)"
  let ?S = "range_vals ksubs (GetSubscribedTopics kpub' kpriv' kall (heap s ! r) s)"
  consider "?T = []" "?S = []" | "?T \<noteq> []" "?S = []" | "?T \<noteq> []" "?S \<noteq> []"
    using assms(2) by blast
  then show ?thesis
  proof cases
    case 1
    then show ?thesis using assms(1)
      by (simp add: generateInit_def Let_def len_def marshal_sys_only)
  next
    case 2
    then show ?thesis using assms(1)
      by (simp add: generateInit_def Let_def len_def marshal_sys_only sys_loop_eq emptySys_def
          marshal_Sys_list quote_keys o_def marshal_topic_entry)
  next
    case 3
    then show ?thesis using assms(1)
      by (simp add: generateInit_def Let_def len_def marshal_sys_only sys_loop_eq emptySys_def
          marshal_Sys_list quote_keys o_def marshal_topic_entry marshal_name_entry)
  qed
qed

lemma sendNewTopicsList_json:
  assumes "r < length (heap s)"
  shows \<open>sendNewTopicsList kpub kpriv ktopics r s =
     push_if_receving r
       (''{"sys":[''
          @ (if range_vals ktopics (GetTopics kpub kpriv (heap s ! r) s) = [] then []
             else ''{"type":"topics","list":['' @ intercalate '',''
                    (map (\<lambda>t. ''{"name":'' @ quote (Name t)
                                @ (if Type t = [] then [] else '',"type":'' @ quote (Type t)) @ ''}'')
                       (range_vals ktopics (GetTopics kpub kpriv (heap s ! r) s))) @ '']}'')
          @ ''],"updates":null}'') s\<close>
  using assms
  by (simp add: sendNewTopicsList_eq marshal_Sys_list quote_keys o_def marshal_topic_entry)

subsection \<open>Private topics\<close>

lemma NewPrivateTopic_result:
  assumes "r < length (heap s)" and "NewPrivateTopic kpub kpriv ktopics r name s = (None, s1)"
  shows "length (heap s1) = length (heap s)
       \<and> status (heap s1 ! r) = status (heap s ! r)
       \<and> client_id (heap s1 ! r) = client_id (heap s ! r)
       \<and> privateTopics (heap s1 ! r) name = Some \<lparr>Name = name, Type = Private, Clients = Map.empty\<rparr>"
  using assms
  by (auto simp: NewPrivateTopic_def Let_def split: if_splits)

lemma Sub_private:
  assumes "r < length (heap s)" and "privateTopics (heap s ! r) name = Some t"
  shows \<open>Sub r name s =
     (None, snd (push_if_receving r
        (''{"sys":[{"type":"subscribed","list":[{"name":'' @ quote (Name t) @ ''}]}],"updates":null}'')
        (set_client r ((heap s ! r)\<lparr>privateTopics := (privateTopics (heap s ! r))
            (name \<mapsto> t\<lparr>Clients := (Clients t)(client_id (heap s ! r) \<mapsto> r)\<rparr>)\<rparr>) s)))\<close>
  using assms by (simp add: Sub_def Let_def sendNewSubscribedTopic_eq)

lemma Sub_public:
  assumes "r < length (heap s)" and "privateTopics (heap s ! r) name = None"
    and "publicTopics s name = Some t"
  shows \<open>Sub r name s =
     (None, snd (push_if_receving r
        (''{"sys":[{"type":"subscribed","list":[{"name":'' @ quote (Name t) @ ''}]}],"updates":null}'')
        (s\<lparr>publicTopics := (publicTopics s)
            (name \<mapsto> t\<lparr>Clients := (Clients t)(client_id (heap s ! r) \<mapsto> r)\<rparr>)\<rparr>)))\<close>
  using assms by (simp add: Sub_def Let_def sendNewSubscribedTopic_eq)

lemma quote_orders: \<open>quote ''orders'' = ''"orders"''\<close>
  by (simp add: quote_def escape_char_def)

subsection \<open>The two fan-outs\<close>

text \<open>
  The handler's loop returns the error of the first subscriber whose frame cannot be
  made and sends nothing to the subscribers after it; a subscriber whose frame is made
  has it sent on its stream, whatever its status.
\<close>

lemma pub_loop_error:
  assumes "r < length (heap s)" and "gen (heap s ! r) t message = Inl err"
  shows "pub_loop gen t message (r # rs) s = (Some err, s)"
  using assms by simp

lemma pub_loop_ok:
  assumes "r < length (heap s)" and "gen (heap s ! r) t message = Inr j"
  shows "pub_loop gen t message (r # rs) s =
           pub_loop gen t message rs
             (set_client r ((heap s ! r)\<lparr>stream := stream (heap s ! r) @ [j]\<rparr>) s)"
  using assms by (simp add: Let_def)








subsection \<open>Removing a client\<close>

text \<open>
  \<^verbatim>\<open>Unsub(n)\<close> takes the client out of the private topic \<open>n\<close>, or else out of the public
  topic \<open>n\<close>, and touches no other entry, whether it returns an error or not; so does a
  run of \<^verbatim>\<open>Unsub\<close> over the names of a list of topics. Where every topic is stored under
  its own name, \<^verbatim>\<open>RemoveClient\<close> therefore takes the client out of all its private
  topics and out of the public topics that none of its private topics hides, and leaves
  the hidden public topics as they are.
\<close>

lemma Unsub_maps:
  assumes "r < length (heap s)"
  shows "length (heap (snd (Unsub r n s))) = length (heap s)"
    and "client_id (heap (snd (Unsub r n s)) ! r) = client_id (heap s ! r)"
    and "clients (snd (Unsub r n s)) = clients s"
    and "privateTopics (heap (snd (Unsub r n s)) ! r) k =
           map_option (\<lambda>t. if k = n then t\<lparr>Clients := (Clients t)(client_id (heap s ! r) := None)\<rparr> else t)
             (privateTopics (heap s ! r) k)"
    and "publicTopics (snd (Unsub r n s)) k =
           map_option (\<lambda>t. if k = n \<and> privateTopics (heap s ! r) k = None
                            then t\<lparr>Clients := (Clients t)(client_id (heap s ! r) := None)\<rparr> else t)
             (publicTopics s k)"
proof -
  have idem: "\<And>t i. Clients t i = None \<Longrightarrow> t\<lparr>Clients := (Clients t)(i := None)\<rparr> = t"
    by (simp add: fun_upd_idem)
  show "length (heap (snd (Unsub r n s))) = length (heap s)"
    using assms by (auto simp: Unsub_def Let_def sendUnsubscribedTopic_eq split: option.splits)
  show "client_id (heap (snd (Unsub r n s)) ! r) = client_id (heap s ! r)"
    using assms by (auto simp: Unsub_def Let_def sendUnsubscribedTopic_eq split: option.splits)
  show "clients (snd (Unsub r n s)) = clients s"
    using assms by (auto simp: Unsub_def Let_def sendUnsubscribedTopic_eq split: option.splits)
  show "privateTopics (heap (snd (Unsub r n s)) ! r) k =
           map_option (\<lambda>t. if k = n then t\<lparr>Clients := (Clients t)(client_id (heap s ! r) := None)\<rparr> else t)
             (privateTopics (heap s ! r) k)"
    using assms
    by (cases "k = n"; cases "privateTopics (heap s ! r) k")
       (auto simp: Unsub_def Let_def sendUnsubscribedTopic_eq idem option.map_ident split: option.splits)
  show "publicTopics (snd (Unsub r n s)) k =
           map_option (\<lambda>t. if k = n \<and> privateTopics (heap s ! r) k = None
                            then t\<lparr>Clients := (Clients t)(client_id (heap s ! r) := None)\<rparr> else t)
             (publicTopics s k)"
    using assms
    by (cases "k = n"; cases "publicTopics s k")
       (auto simp: Unsub_def Let_def sendUnsubscribedTopic_eq idem option.map_ident split: option.splits)
qed

lemma unsub_all_maps:
  assumes "r < length (heap s)"
  shows "length (heap (unsub_all r ts s)) = length (heap s)
       \<and> client_id (heap (unsub_all r ts s) ! r) = client_id (heap s ! r)
       \<and> clients (unsub_all r ts s) = clients s
       \<and> (\<forall>k. privateTopics (heap (unsub_all r ts s) ! r) k =
             map_option (\<lambda>t. if k \<in> Name ` set ts
                              then t\<lparr>Clients := (Clients t)(client_id (heap s ! r) := None)\<rparr> else t)
               (privateTopics (heap s ! r) k))
       \<and> (\<forall>k. publicTopics (unsub_all r ts s) k =
             map_option (\<lambda>t. if k \<in> Name ` set ts \<and> privateTopics (heap s ! r) k = None
                              then t\<lparr>Clients := (Clients t)(client_id (heap s ! r) := None)\<rparr> else t)
               (publicTopics s k))"
  using assms
proof (induction ts arbitrary: s)
  case Nil
  then show ?case by (simp add: unsub_all_def option.map_ident)
next
  case (Cons a ts)
  let ?s1 = "snd (Unsub r (Name a) s)"
  note u = Unsub_maps [OF Cons.prems, of "Name a"]
  have r1: "r < length (heap ?s1)" using Cons.prems u(1) by simp
  have step: "unsub_all r (a # ts) s = unsub_all r ts ?s1" by (simp add: unsub_all_def)
  note ih = Cons.IH [OF r1]
  show ?case
    unfolding step
    using ih
    by (auto simp: u option.map_comp o_def fun_upd_twist intro!: option.map_cong split: option.splits)
qed


lemma range_vals_set: "go_order ks m \<Longrightarrow> set (range_vals ks m) = ran m"
  unfolding go_order_def range_vals_def List.map_filter_def ran_def
  by (auto simp: image_iff dom_def) force

lemma range_vals_names:
  assumes "go_order ks m" and "\<forall>k t. m k = Some t \<longrightarrow> Name t = k"
  shows "Name ` set (range_vals ks m) = dom m"
  using assms(2) unfolding range_vals_set [OF assms(1)] ran_def dom_def by force

lemma RemoveClient_clears:
  assumes "clients s ident = Some r" and "r < length (heap s)"
    and "go_order kpriv (privateTopics (heap s ! r))" and "go_order kpub (publicTopics s)"
    and "\<forall>k t. privateTopics (heap s ! r) k = Some t \<longrightarrow> Name t = k"
    and "\<forall>k t. publicTopics s k = Some t \<longrightarrow> Name t = k"
  shows "fst (RemoveClient kpriv kpub ident s) = None"
    and "clients (snd (RemoveClient kpriv kpub ident s)) = (clients s)(ident := None)"
    and "privateTopics (heap (snd (RemoveClient kpriv kpub ident s)) ! r) k = Some t
         \<Longrightarrow> Clients t (client_id (heap s ! r)) = None"
    and "publicTopics (snd (RemoveClient kpriv kpub ident s)) k = Some t
         \<Longrightarrow> privateTopics (heap s ! r) k = None \<Longrightarrow> Clients t (client_id (heap s ! r)) = None"
    and "privateTopics (heap s ! r) k \<noteq> None
         \<Longrightarrow> publicTopics (snd (RemoveClient kpriv kpub ident s)) k = publicTopics s k"
proof -
  let ?c = "heap s ! r"
  let ?i = "client_id ?c"
  let ?strip = "\<lambda>t. t\<lparr>Clients := (Clients t)(?i := None)\<rparr>"
  let ?ts1 = "range_vals kpriv (privateTopics ?c)"
  let ?s1 = "unsub_all r ?ts1 s"
  let ?ts2 = "range_vals kpub (publicTopics ?s1)"
  let ?s2 = "unsub_all r ?ts2 ?s1"
  have rc: "RemoveClient kpriv kpub ident s = (None, ?s2\<lparr>clients := (clients ?s2)(ident := None)\<rparr>)"
    using assms(1,2) by (simp add: RemoveClient_def getClient_def Let_def)
  note m1 = unsub_all_maps [OF assms(2), of ?ts1]
  have n1: "Name ` set ?ts1 = dom (privateTopics ?c)"
    using assms(3,5) by (rule range_vals_names)
  have r1: "r < length (heap ?s1)" using m1 assms(2) by simp
  have i1: "client_id (heap ?s1 ! r) = ?i" using m1 by simp
  have c1: "clients ?s1 = clients s" using m1 by simp
  have m1_priv: "privateTopics (heap ?s1 ! r) k =
      map_option (\<lambda>t. if k \<in> Name ` set ?ts1 then ?strip t else t) (privateTopics ?c k)" for k
    using m1 by blast
  have P1: "privateTopics (heap ?s1 ! r) k = map_option ?strip (privateTopics ?c k)" for k
  proof (cases "privateTopics ?c k")
    case None
    then show ?thesis by (simp add: m1_priv)
  next
    case (Some t)
    then have "k \<in> Name ` set ?ts1" unfolding n1 by auto
    then show ?thesis using Some by (simp add: m1_priv)
  qed
  have m1_pub: "publicTopics ?s1 k =
      map_option (\<lambda>t. if k \<in> Name ` set ?ts1 \<and> privateTopics ?c k = None then ?strip t else t)
        (publicTopics s k)" for k
    using m1 by blast
  have "publicTopics ?s1 k = publicTopics s k" for k
  proof (cases "privateTopics ?c k")
    case None
    then have "k \<notin> Name ` set ?ts1" unfolding n1 by auto
    then show ?thesis by (simp add: m1_pub option.map_ident)
  next
    case (Some t)
    then show ?thesis by (simp add: m1_pub option.map_ident)
  qed
  then have Q1: "publicTopics ?s1 = publicTopics s" by (rule ext)
  note m2 = unsub_all_maps [OF r1, of ?ts2, unfolded Q1 i1 c1]
  have n2: "Name ` set (range_vals kpub (publicTopics s)) = dom (publicTopics s)"
    using assms(4,6) by (rule range_vals_names)
  have c2: "clients (unsub_all r (range_vals kpub (publicTopics s)) ?s1) = clients s"
    using m2 by simp
  have P2: "privateTopics (heap (unsub_all r (range_vals kpub (publicTopics s)) ?s1) ! r) k
              = map_option (\<lambda>t. if k \<in> dom (publicTopics s) then ?strip t else t)
                  (privateTopics (heap ?s1 ! r) k)" for k
    using m2 unfolding n2 by simp
  have Q2: "publicTopics (unsub_all r (range_vals kpub (publicTopics s)) ?s1) k
              = map_option (\<lambda>t. if k \<in> dom (publicTopics s) \<and> privateTopics (heap ?s1 ! r) k = None
                                 then ?strip t else t) (publicTopics s k)" for k
    using m2 unfolding n2 by simp
  have rc': "RemoveClient kpriv kpub ident s =
             (None, (unsub_all r (range_vals kpub (publicTopics s)) ?s1)
                      \<lparr>clients := (clients s)(ident := None)\<rparr>)"
    using rc c2 unfolding Q1 by simp
  show "fst (RemoveClient kpriv kpub ident s) = None" by (simp add: rc')
  show "clients (snd (RemoveClient kpriv kpub ident s)) = (clients s)(ident := None)"
    by (simp add: rc')
  {
    assume "privateTopics (heap (snd (RemoveClient kpriv kpub ident s)) ! r) k = Some t"
    then show "Clients t ?i = None"
      by (cases "privateTopics ?c k") (auto simp: rc' P2 P1 split: if_splits)
  }
  {
    assume "publicTopics (snd (RemoveClient kpriv kpub ident s)) k = Some t"
      and "privateTopics ?c k = None"
    then show "Clients t ?i = None"
      by (cases "publicTopics s k") (auto simp: rc' Q2 P1 dom_def split: if_splits)
  }
  {
    assume "privateTopics ?c k \<noteq> None"
    then show "publicTopics (snd (RemoveClient kpriv kpub ident s)) k = publicTopics s k"
      by (cases "publicTopics s k") (auto simp: rc' Q2 P1)
  }
qed

lemma RemoveClient_unknown:
  "clients s ident = None \<Longrightarrow> RemoveClient kpriv kpub ident s = (Some (ClientNotExists ident), s)"
  by (simp add: RemoveClient_def getClient_def)

section \<open>The claims\<close>



text \<open>
  C2, as amended. For a client whose status is \<^verbatim>\<open>Receving\<close>, after
  \<^verbatim>\<open>NewPrivateTopic("orders")\<close> and \<^verbatim>\<open>Sub("orders")\<close> have both succeeded, the stream of the
  client ends with the \<^verbatim>\<open>subscribed\<close> frame of \<^verbatim>\<open>orders\<close>, and \<^verbatim>\<open>Pub("orders", {"id":1})\<close>
  succeeds and does nothing but append to that stream the frame whose \<^verbatim>\<open>sys\<close> is
  \<^verbatim>\<open>null\<close> and whose \<^verbatim>\<open>updates\<close> hold the one update of \<^verbatim>\<open>orders\<close>.
\<close>

theorem scenario_A:
  assumes "r < length (heap s)"
    and "status (heap s ! r) = Receving"
    and "NewPrivateTopic kpub kpriv ktopics r ''orders'' s = (None, s1)"
    and "Sub r ''orders'' s1 = (None, s2)"
  shows \<open>stream (heap s2 ! r) = stream (heap s1 ! r)
            @ [''{"sys":[{"type":"subscribed","list":[{"name":"orders"}]}],"updates":null}'']
       \<and> client_Pub r ''orders'' (JObject [(''id'', JInt 1)]) s2 =
           (None, set_client r ((heap s2 ! r)\<lparr>stream := stream (heap s2 ! r)
              @ [''{"sys":null,"updates":[{"topic":"orders","data":{"id":1}}]}'']\<rparr>) s2)\<close>
proof -
  let ?t = "\<lparr>Name = ''orders'', Type = Private, Clients = Map.empty\<rparr>"
  from NewPrivateTopic_result [OF assms(1,3)] assms(2)
  have l1: "r < length (heap s1)" and st1: "status (heap s1 ! r) = Receving"
    and p1: "privateTopics (heap s1 ! r) ''orders'' = Some ?t"
    using assms(1) by simp_all
  let ?s1' = "set_client r ((heap s1 ! r)\<lparr>privateTopics := (privateTopics (heap s1 ! r))
            (''orders'' \<mapsto> ?t\<lparr>Clients := (Clients ?t)(client_id (heap s1 ! r) \<mapsto> r)\<rparr>)\<rparr>) s1"
  from Sub_private [OF l1 p1] assms(4)
  have s2: \<open>s2 = snd (push_if_receving r
        (''{"sys":[{"type":"subscribed","list":[{"name":'' @ quote ''orders''
           @ ''}]}],"updates":null}'') ?s1')\<close>
    by simp
  have l2: "r < length (heap s2)" using l1 by (simp add: s2)
  have st2: "status (heap s2 ! r) = Receving" using l1 st1 by (simp add: s2)
  have p2: "\<exists>t. privateTopics (heap s2 ! r) ''orders'' = Some t \<and> Name t = ''orders''"
    using l1 by (simp add: s2)
  have str: \<open>stream (heap s2 ! r) = stream (heap s1 ! r)
            @ [''{"sys":[{"type":"subscribed","list":[{"name":"orders"}]}],"updates":null}'']\<close>
    using l1 st1 by (simp add: s2 push_stream quote_orders)
  from p2 obtain t where t: "privateTopics (heap s2 ! r) ''orders'' = Some t" "Name t = ''orders''"
    by blast
  have pub: \<open>client_Pub r ''orders'' (JObject [(''id'', JInt 1)]) s2 =
           (None, set_client r ((heap s2 ! r)\<lparr>stream := stream (heap s2 ! r)
              @ [''{"sys":null,"updates":[{"topic":"orders","data":{"id":1}}]}'']\<rparr>) s2)\<close>
    using l2 st2 t
    by (simp add: client_Pub_def sendUpdate_eq quote_def escape_char_def show_int_def digit_def
        push_if_receving_def Let_def)
  from str pub show ?thesis by simp
qed

theorem scenario_A_witness:
  \<open>0 < length (heap (ex_hub Receving Map.empty))
   \<and> status (heap (ex_hub Receving Map.empty) ! 0) = Receving
   \<and> NewPrivateTopic [''news''] [''orders''] [''news'', ''orders''] 0 ''orders'' (ex_hub Receving Map.empty)
       = (None, scenario_s1)
   \<and> Sub 0 ''orders'' scenario_s1 = (None, scenario_s2)
   \<and> stream (heap scenario_s2 ! 0) = stream (heap scenario_s1 ! 0)
            @ [''{"sys":[{"type":"subscribed","list":[{"name":"orders"}]}],"updates":null}'']
   \<and> client_Pub 0 ''orders'' (JObject [(''id'', JInt 1)]) scenario_s2 =
           (None, set_client 0 ((heap scenario_s2 ! 0)\<lparr>stream := stream (heap scenario_s2 ! 0)
              @ [''{"sys":null,"updates":[{"topic":"orders","data":{"id":1}}]}'']\<rparr>) scenario_s2)\<close>
proof -
  have a: "0 < length (heap (ex_hub Receving Map.empty))" by (simp add: ex_hub_def)
  have b: "status (heap (ex_hub Receving Map.empty) ! 0) = Receving" by (simp add: ex_hub_def)
  have c: "NewPrivateTopic [''news''] [''orders''] [''news'', ''orders''] 0 ''orders''
             (ex_hub Receving Map.empty) = (None, scenario_s1)"
    by (simp add: eval_defs ex_defs)
  have d: "Sub 0 ''orders'' scenario_s1 = (None, scenario_s2)"
    by (simp add: eval_defs ex_defs)
  from scenario_A [OF a b c d] a b c d show ?thesis by simp
qed

text \<open>
  C2 as stated fails: in scenario A the stream of \<^verbatim>\<open>c1\<close> holds three frames (the topic
  list, the subscription and the update), the last with \<^verbatim>\<open>"sys":null\<close>, and the frame of
  the claim, with \<^verbatim>\<open>"sys":[]\<close>, is none of them.
\<close>

theorem scenario_A_counterexample:
  \<open>status (heap (ex_hub Receving Map.empty) ! 0) = Receving
   \<and> NewPrivateTopic [''news''] [''orders''] [''news'', ''orders''] 0 ''orders'' (ex_hub Receving Map.empty)
       = (None, scenario_s1)
   \<and> Sub 0 ''orders'' scenario_s1 = (None, scenario_s2)
   \<and> fst (client_Pub 0 ''orders'' (JObject [(''id'', JInt 1)]) scenario_s2) = None
   \<and> length (stream (heap (snd (client_Pub 0 ''orders'' (JObject [(''id'', JInt 1)]) scenario_s2)) ! 0)) = 3
   \<and> stream (heap (snd (client_Pub 0 ''orders'' (JObject [(''id'', JInt 1)]) scenario_s2)) ! 0) ! 1
       = ''{"sys":[{"type":"subscribed","list":[{"name":"orders"}]}],"updates":null}''
   \<and> stream (heap (snd (client_Pub 0 ''orders'' (JObject [(''id'', JInt 1)]) scenario_s2)) ! 0) ! 2
       = ''{"sys":null,"updates":[{"topic":"orders","data":{"id":1}}]}''
   \<and> ''{"sys":[],"updates":[{"topic":"orders","data":{"id":1}}]}''
       \<notin> set (stream (heap (snd (client_Pub 0 ''orders'' (JObject [(''id'', JInt 1)]) scenario_s2)) ! 0))\<close>
  by (simp add: eval_defs ex_defs)

text \<open>
  C3, at a failing input. The client \<^verbatim>\<open>c1\<close> is \<^verbatim>\<open>Waiting\<close>, its stream is empty and it is
  a subscriber of the public topic \<^verbatim>\<open>news\<close>. The handler's \<^verbatim>\<open>Pub\<close> does not look at the
  status: it returns \<^verbatim>\<open>nil\<close> with the update frame sent on the stream of \<^verbatim>\<open>c1\<close>. The
  senders of \<^verbatim>\<open>client.go\<close> all drop the frame of a waiting client, as \<open>senders_waiting\<close>
  shows.
\<close>

theorem handler_Pub_ignores_status:
  \<open>status (heap (ex_hub Waiting [''c1'' \<mapsto> 0]) ! 0) = Waiting
   \<and> stream (heap (ex_hub Waiting [''c1'' \<mapsto> 0]) ! 0) = []
   \<and> fst (handler_Pub generateUpdateData [''c1''] ''news'' (JObject [(''id'', JInt 1)])
            (ex_hub Waiting [''c1'' \<mapsto> 0])) = None
   \<and> stream (heap (snd (handler_Pub generateUpdateData [''c1''] ''news'' (JObject [(''id'', JInt 1)])
                          (ex_hub Waiting [''c1'' \<mapsto> 0]))) ! 0)
       = [''{"sys":null,"updates":[{"topic":"news","data":{"id":1}}]}'']\<close>
  by (simp add: eval_defs)

text \<open>
  C4, at a failing input. A new client \<^verbatim>\<open>c1\<close> subscribes to the public topic \<^verbatim>\<open>x\<close> and
  then creates a private topic \<^verbatim>\<open>x\<close>. \<^verbatim>\<open>RemoveClient("c1")\<close> returns \<^verbatim>\<open>nil\<close> and deletes the
  client from the client map, but both of its loops call \<^verbatim>\<open>Unsub("x")\<close>, which finds the
  private topic first: the public topic \<^verbatim>\<open>x\<close> still has \<^verbatim>\<open>c1\<close> among its subscribers.
  Without such a hidden public topic the client is left in no topic it can see, as
  \<open>RemoveClient_clears\<close> shows, and an id the handler does not know is an error
  (\<open>RemoveClient_unknown\<close>).
\<close>

theorem RemoveClient_shadowed_public:
  "NewClient [] ''c1'' hub_x = (0, shadow_s1)
   \<and> Sub 0 ''x'' shadow_s1 = (None, shadow_s2)
   \<and> NewPrivateTopic [''x''] [''x''] [''x''] 0 ''x'' shadow_s2 = (None, shadow_s3)
   \<and> go_order [''x''] (privateTopics (heap shadow_s3 ! 0))
   \<and> go_order [''x''] (publicTopics shadow_s3)
   \<and> fst (RemoveClient [''x''] [''x''] ''c1'' shadow_s3) = None
   \<and> clients (snd (RemoveClient [''x''] [''x''] ''c1'' shadow_s3)) ''c1'' = None
   \<and> map_option (\<lambda>t. Clients t ''c1'')
        (publicTopics (snd (RemoveClient [''x''] [''x''] ''c1'' shadow_s3)) ''x'') = Some (Some 0)"
  by (simp add: eval_defs ex_defs)

text \<open>
  C5, as amended. After a successful \<^verbatim>\<open>Sub(name)\<close>, \<^verbatim>\<open>Unsub(name)\<close> succeeds and leaves the
  subscriber map of the topic equal to the one before the pair with this client's entry
  removed: the same map as before whenever the client was not a subscriber before the
  pair. A further \<^verbatim>\<open>Unsub(name)\<close> fails with the not-subscribed error.
\<close>

theorem Sub_Unsub_roundtrip:
  assumes "r < length (heap s)"
    and "Sub r name s = (None, s1)"
    and "Unsub r name s1 = (e2, s2)"
  shows "e2 = None
       \<and> (\<exists>t. resolve r name s = Some t
              \<and> resolve r name s2 = Some (t\<lparr>Clients := (Clients t)(client_id (heap s ! r) := None)\<rparr>)
              \<and> (Clients t (client_id (heap s ! r)) = None \<longrightarrow> resolve r name s2 = resolve r name s))
       \<and> fst (Unsub r name s2) = Some (NotSubscribed (client_id (heap s ! r)) name)"
proof -
  let ?i = "client_id (heap s ! r)"
  from Sub_result [OF assms(1,2)] obtain t where
    t: "resolve r name s = Some t"
    and t1: "resolve r name s1 = Some (t\<lparr>Clients := (Clients t)(?i \<mapsto> r)\<rparr>)"
    and l1: "length (heap s1) = length (heap s)"
    and i1: "client_id (heap s1 ! r) = ?i" by blast
  let ?t1 = "t\<lparr>Clients := (Clients t)(?i \<mapsto> r)\<rparr>"
  have r1: "r < length (heap s1)" using assms(1) l1 by simp
  have sub: "Clients ?t1 (client_id (heap s1 ! r)) \<noteq> None" using i1 by simp
  from Unsub_result(2) [OF r1 t1 sub] assms(3) i1
  have e2: "e2 = None"
    and t2: "resolve r name s2 = Some (t\<lparr>Clients := (Clients t)(?i := None)\<rparr>)"
    and l2: "length (heap s2) = length (heap s1)"
    and i2: "client_id (heap s2 ! r) = ?i" by simp_all
  have r2: "r < length (heap s2)" using r1 l2 by simp
  have "Clients (t\<lparr>Clients := (Clients t)(?i := None)\<rparr>) (client_id (heap s2 ! r)) = None"
    using i2 by simp
  from Unsub_result(1) [OF r2 t2 this] i2
  have third: "fst (Unsub r name s2) = Some (NotSubscribed ?i name)" by simp
  have "Clients t ?i = None \<longrightarrow> t\<lparr>Clients := (Clients t)(?i := None)\<rparr> = t"
    by (simp add: fun_upd_idem)
  with e2 t t2 third show ?thesis by auto
qed

text \<open>
  The round trip of the client \<^verbatim>\<open>c1\<close>, not subscribed before, on the public topic
  \<^verbatim>\<open>news\<close>: the handler is the same afterwards.
\<close>

theorem Sub_Unsub_roundtrip_witness:
  "0 < length (heap (ex_hub Waiting Map.empty))
   \<and> Sub 0 ''news'' (ex_hub Waiting Map.empty) = (None, ex_hub Waiting [''c1'' \<mapsto> 0])
   \<and> Unsub 0 ''news'' (ex_hub Waiting [''c1'' \<mapsto> 0]) = (None, ex_hub Waiting Map.empty)
   \<and> resolve 0 ''news'' (ex_hub Waiting Map.empty)
       = Some \<lparr>Name = ''news'', Type = Public, Clients = Map.empty\<rparr>
   \<and> fst (Unsub 0 ''news'' (ex_hub Waiting Map.empty)) = Some (NotSubscribed ''c1'' ''news'')"
proof -
  have a: "0 < length (heap (ex_hub Waiting Map.empty))"
    by (simp add: ex_hub_def)
  have b: "Sub 0 ''news'' (ex_hub Waiting Map.empty) = (None, ex_hub Waiting [''c1'' \<mapsto> 0])"
    by (simp add: eval_defs)
  have c: "Unsub 0 ''news'' (ex_hub Waiting [''c1'' \<mapsto> 0]) = (None, ex_hub Waiting Map.empty)"
    by (simp add: eval_defs)
  have d: "resolve 0 ''news'' (ex_hub Waiting Map.empty)
             = Some \<lparr>Name = ''news'', Type = Public, Clients = Map.empty\<rparr>"
    by (simp add: resolve_def ex_hub_def)
  have e: "client_id (heap (ex_hub Waiting Map.empty) ! 0) = ''c1''"
    by (simp add: ex_hub_def)
  from Sub_Unsub_roundtrip [OF a b c] a b c d e show ?thesis by simp
qed

text \<open>
  C5 as stated fails for a client that is a subscriber already: \<^verbatim>\<open>Sub\<close> succeeds all the
  same, and the pair leaves the topic without the subscriber it had before.
\<close>

theorem Sub_Unsub_roundtrip_counterexample:
  "fst (Sub 0 ''news'' (ex_hub Waiting [''c1'' \<mapsto> 0])) = None
   \<and> fst (Unsub 0 ''news'' (snd (Sub 0 ''news'' (ex_hub Waiting [''c1'' \<mapsto> 0])))) = None
   \<and> map_option (dom \<circ> Clients) (resolve 0 ''news'' (ex_hub Waiting [''c1'' \<mapsto> 0])) = Some {''c1''}
   \<and> map_option (dom \<circ> Clients)
        (resolve 0 ''news''
          (snd (Unsub 0 ''news'' (snd (Sub 0 ''news'' (ex_hub Waiting [''c1'' \<mapsto> 0])))))) = Some {}"
  by (simp add: eval_defs)

text \<open>
  C6. \<^verbatim>\<open>Pub\<close> of a client fails with the not-receiving error while the client is
  \<^verbatim>\<open>Waiting\<close>; otherwise it fails with the topic-does-not-exist error when the name is
  not one of the client's private topics, whatever the public topics are; only past both
  checks does it hand the update to \<^verbatim>\<open>sendUpdate\<close>, and a handler that \<^verbatim>\<open>Pub\<close> has
  changed is one where both checks passed. Both failures leave the handler as it was.
\<close>

theorem client_Pub_checks:
  assumes "r < length (heap s)"
  shows "(status (heap s ! r) = Waiting \<longrightarrow>
            client_Pub r to message s = (Some (NotReceving (client_id (heap s ! r))), s))
       \<and> (status (heap s ! r) = Receving \<and> privateTopics (heap s ! r) to = None \<longrightarrow>
            client_Pub r to message s = (Some (TopicNotExists to), s))
       \<and> (\<forall>t. status (heap s ! r) = Receving \<and> privateTopics (heap s ! r) to = Some t \<longrightarrow>
            client_Pub r to message s = sendUpdate r t message s)
       \<and> (snd (client_Pub r to message s) \<noteq> s \<longrightarrow>
            status (heap s ! r) = Receving \<and> to \<in> dom (privateTopics (heap s ! r)))"
  using assms
  by (cases "status (heap s ! r)") (auto simp: client_Pub_def Let_def split: option.splits)

text \<open>
  The client \<^verbatim>\<open>c1\<close> has no private topic: publishing on the public topic \<^verbatim>\<open>news\<close> is
  refused, with the not-receiving error while waiting and as an unknown topic once
  receiving. In scenario A it owns \<^verbatim>\<open>orders\<close> and is receiving: the update is sent.
\<close>

theorem client_Pub_checks_witness:
  "0 < length (heap (ex_hub Waiting Map.empty))
   \<and> client_Pub 0 ''news'' JNull (ex_hub Waiting Map.empty)
       = (Some (NotReceving ''c1''), ex_hub Waiting Map.empty)
   \<and> 0 < length (heap (ex_hub Receving Map.empty))
   \<and> client_Pub 0 ''news'' JNull (ex_hub Receving Map.empty)
       = (Some (TopicNotExists ''news''), ex_hub Receving Map.empty)
   \<and> 0 < length (heap scenario_s2)
   \<and> status (heap scenario_s2 ! 0) = Receving
   \<and> privateTopics (heap scenario_s2 ! 0) ''orders''
       = Some \<lparr>Name = ''orders'', Type = Private, Clients = [''c1'' \<mapsto> 0]\<rparr>
   \<and> client_Pub 0 ''orders'' JNull scenario_s2
       = sendUpdate 0 \<lparr>Name = ''orders'', Type = Private, Clients = [''c1'' \<mapsto> 0]\<rparr> JNull scenario_s2
   \<and> snd (client_Pub 0 ''orders'' JNull scenario_s2) \<noteq> scenario_s2"
proof -
  have a: "0 < length (heap (ex_hub Waiting Map.empty))" by (simp add: ex_hub_def)
  have b: "0 < length (heap (ex_hub Receving Map.empty))" by (simp add: ex_hub_def)
  have c: "0 < length (heap scenario_s2)"
    and d: "status (heap scenario_s2 ! 0) = Receving"
    and e: "privateTopics (heap scenario_s2 ! 0) ''orders''
              = Some \<lparr>Name = ''orders'', Type = Private, Clients = [''c1'' \<mapsto> 0]\<rparr>"
    by (simp_all add: eval_defs ex_defs)
  have f: "snd (client_Pub 0 ''orders'' JNull scenario_s2) \<noteq> scenario_s2"
    by (simp add: eval_defs ex_defs)
  from client_Pub_checks [OF a, of "''news''" JNull] client_Pub_checks [OF b, of "''news''" JNull]
       client_Pub_checks [OF c, of "''orders''" JNull] a b c d e f
  show ?thesis by (simp add: ex_hub_def)
qed

text \<open>
  C7. Two calls of \<^verbatim>\<open>NewClient\<close> with the same non-empty id return the same client
  reference; the second call changes nothing; the client map holds the id, bound to
  that reference, and otherwise the entries it had before the first call; an id that
  was bound already is returned as it is, and a new one gets one fresh client object.
\<close>

theorem NewClient_idempotent:
  assumes "id0 \<noteq> []"
    and "NewClient u1 id0 s = (r1, s1)"
    and "NewClient u2 id0 s1 = (r2, s2)"
  shows "r2 = r1 \<and> s2 = s1 \<and> clients s1 id0 = Some r1
         \<and> dom (clients s2) = insert id0 (dom (clients s))
         \<and> (\<forall>k. k \<noteq> id0 \<longrightarrow> clients s2 k = clients s k)
         \<and> (case clients s id0 of
               Some r \<Rightarrow> r1 = r \<and> s1 = s
             | None \<Rightarrow> r1 = length (heap s)
                 \<and> heap s1 = heap s @ [\<lparr>client_id = id0, stream = [], status = Waiting, privateTopics = Map.empty\<rparr>]
                 \<and> publicTopics s1 = publicTopics s)"
  using assms
  by (auto simp: NewClient_def Let_def split: option.splits)

theorem NewClient_idempotent_witness:
  "''c1'' \<noteq> []
   \<and> NewClient ''u1'' ''c1'' NewSSEPubSubHandler
       = (0, \<lparr>heap = [\<lparr>client_id = ''c1'', stream = [], status = Waiting, privateTopics = Map.empty\<rparr>],
              clients = [''c1'' \<mapsto> 0], publicTopics = Map.empty\<rparr>)
   \<and> NewClient ''u2'' ''c1''
        \<lparr>heap = [\<lparr>client_id = ''c1'', stream = [], status = Waiting, privateTopics = Map.empty\<rparr>],
         clients = [''c1'' \<mapsto> 0], publicTopics = Map.empty\<rparr>
       = (0, \<lparr>heap = [\<lparr>client_id = ''c1'', stream = [], status = Waiting, privateTopics = Map.empty\<rparr>],
              clients = [''c1'' \<mapsto> 0], publicTopics = Map.empty\<rparr>)
   \<and> dom (clients
        \<lparr>heap = [\<lparr>client_id = ''c1'', stream = [], status = Waiting, privateTopics = Map.empty\<rparr>],
         clients = [''c1'' \<mapsto> 0], publicTopics = Map.empty\<rparr>)
       = insert ''c1'' (dom (clients NewSSEPubSubHandler))"
proof -
  let ?s1 = "\<lparr>heap = [\<lparr>client_id = ''c1'', stream = [], status = Waiting, privateTopics = Map.empty\<rparr>],
              clients = [''c1'' \<mapsto> 0], publicTopics = Map.empty\<rparr>"
  have a: "''c1'' \<noteq> []" by simp
  have b: "NewClient ''u1'' ''c1'' NewSSEPubSubHandler = (0, ?s1)"
    by (simp add: NewClient_def NewSSEPubSubHandler_def Let_def)
  have c: "NewClient ''u2'' ''c1'' ?s1 = (0, ?s1)"
    by (simp add: NewClient_def Let_def)
  from NewClient_idempotent [OF a b c] a b c show ?thesis
    by (simp add: NewSSEPubSubHandler_def)
qed

text \<open>
  C8, as amended. With the order of every range fixed (the orders of the client's two
  maps and of \<^verbatim>\<open>topics\<close> being orders of these maps), the encoders are functions of their
  explicit input. \<^verbatim>\<open>generateInit\<close> returns the frame whose \<^verbatim>\<open>sys\<close> holds, when the client
  sees a topic, one \<^verbatim>\<open>topics\<close> entry with the name and type of every topic in the order of
  the range, then, when the client is subscribed to a topic, one \<^verbatim>\<open>subscribed\<close> entry with
  the names of the subscribed topics in the order of their range, and whose \<^verbatim>\<open>updates\<close>
  is \<^verbatim>\<open>null\<close>; \<^verbatim>\<open>sendNewTopicsList\<close> offers the same frame without the \<^verbatim>\<open>subscribed\<close> entry;
  for a client that sees no topic both frames are \<^verbatim>\<open>{"sys":[],"updates":null}\<close>.
  \<^verbatim>\<open>sendUpdate\<close> offers the frame with \<^verbatim>\<open>"sys":null\<close> and the one update of the topic's
  name and the payload, or returns the error of a payload that does not encode. A client
  that agrees with this one on id, private topics and public topics, whatever its stream,
  its status and the rest of its handler, has the same topics and gets the same result
  of \<^verbatim>\<open>generateInit\<close>.
\<close>

theorem encoder_frames:
  assumes "r < length (heap s)"
    and "go_order kpub (publicTopics s)"
    and "go_order kpriv (privateTopics (heap s ! r))"
    and "go_order ktopics (GetTopics kpub kpriv (heap s ! r) s)"
  shows \<open>generateInit kpub kpriv kpub' kpriv' kall ktopics ksubs r s =
           Inr (''{"sys":['' @ intercalate '',''
                  ((if range_vals ktopics (GetTopics kpub kpriv (heap s ! r) s) = [] then []
                    else [''{"type":"topics","list":['' @ intercalate '',''
                            (map (\<lambda>t. ''{"name":'' @ quote (Name t)
                                        @ (if Type t = [] then [] else '',"type":'' @ quote (Type t))
                                        @ ''}'')
                               (range_vals ktopics (GetTopics kpub kpriv (heap s ! r) s))) @ '']}''])
                   @ (if range_vals ksubs (GetSubscribedTopics kpub' kpriv' kall (heap s ! r) s) = []
                      then []
                      else [''{"type":"subscribed","list":['' @ intercalate '',''
                              (map (\<lambda>t. ''{"name":'' @ quote (Name t) @ ''}'')
                                 (range_vals ksubs
                                    (GetSubscribedTopics kpub' kpriv' kall (heap s ! r) s)))
                              @ '']}'']))
                @ ''],"updates":null}'')
       \<and> sendNewTopicsList kpub kpriv ktopics r s =
           push_if_receving r
             (''{"sys":[''
                @ (if range_vals ktopics (GetTopics kpub kpriv (heap s ! r) s) = [] then []
                   else ''{"type":"topics","list":['' @ intercalate '',''
                          (map (\<lambda>t. ''{"name":'' @ quote (Name t)
                                      @ (if Type t = [] then [] else '',"type":'' @ quote (Type t))
                                      @ ''}'')
                             (range_vals ktopics (GetTopics kpub kpriv (heap s ! r) s))) @ '']}'')
                @ ''],"updates":null}'') s
       \<and> sendUpdate r t d s =
           (case marshal_json d of
              None \<Rightarrow> (Some MarshalError, s)
            | Some j \<Rightarrow>
                push_if_receving r
                  (''{"sys":null,"updates":[{"topic":'' @ quote (Name t) @ '',"data":'' @ j @ ''}]}'') s)
       \<and> (\<forall>r' s'. r' < length (heap s') \<and> client_id (heap s' ! r') = client_id (heap s ! r)
                   \<and> privateTopics (heap s' ! r') = privateTopics (heap s ! r)
                   \<and> publicTopics s' = publicTopics s \<longrightarrow>
              generateInit kpub kpriv kpub' kpriv' kall ktopics ksubs r' s'
                = generateInit kpub kpriv kpub' kpriv' kall ktopics ksubs r s
              \<and> GetTopics kpub kpriv (heap s' ! r') s' = GetTopics kpub kpriv (heap s ! r) s)
       \<and> (range_vals ktopics (GetTopics kpub kpriv (heap s ! r) s) = [] \<longrightarrow>
              generateInit kpub kpriv kpub' kpriv' kall ktopics ksubs r s
                = Inr ''{"sys":[],"updates":null}''
              \<and> sendNewTopicsList kpub kpriv ktopics r s
                = push_if_receving r ''{"sys":[],"updates":null}'' s)\<close>
proof -
  let ?c = "heap s ! r"
  have imp: "range_vals ksubs (GetSubscribedTopics kpub' kpriv' kall ?c s) \<noteq> []
             \<Longrightarrow> range_vals ktopics (GetTopics kpub kpriv ?c s) \<noteq> []"
    using subs_imply_topics [OF assms(2,3,4)] .
  note 1 = generateInit_eq [OF assms(1) imp]
  note 2 = sendNewTopicsList_json [OF assms(1), of kpub kpriv ktopics]
  have 4: "\<forall>r' s'. r' < length (heap s') \<and> client_id (heap s' ! r') = client_id ?c
                   \<and> privateTopics (heap s' ! r') = privateTopics ?c
                   \<and> publicTopics s' = publicTopics s \<longrightarrow>
              generateInit kpub kpriv kpub' kpriv' kall ktopics ksubs r' s'
                = generateInit kpub kpriv kpub' kpriv' kall ktopics ksubs r s
              \<and> GetTopics kpub kpriv (heap s' ! r') s' = GetTopics kpub kpriv ?c s"
    using assms(1) by (auto intro: generateInit_agree GetTopics_agree)
  have 5: \<open>range_vals ktopics (GetTopics kpub kpriv ?c s) = [] \<longrightarrow>
              generateInit kpub kpriv kpub' kpriv' kall ktopics ksubs r s
                = Inr ''{"sys":[],"updates":null}''
              \<and> sendNewTopicsList kpub kpriv ktopics r s
                = push_if_receving r ''{"sys":[],"updates":null}'' s\<close>
  proof
    assume e: "range_vals ktopics (GetTopics kpub kpriv ?c s) = []"
    with imp have e': "range_vals ksubs (GetSubscribedTopics kpub' kpriv' kall ?c s) = []"
      by blast
    show \<open>generateInit kpub kpriv kpub' kpriv' kall ktopics ksubs r s
                = Inr ''{"sys":[],"updates":null}''
              \<and> sendNewTopicsList kpub kpriv ktopics r s
                = push_if_receving r ''{"sys":[],"updates":null}'' s\<close>
      using generateInit_eq [where r = r and s = s and ksubs = ksubs and kpub' = kpub'
          and kpriv' = kpriv' and kall = kall and ktopics = ktopics and kpub = kpub
          and kpriv = kpriv] assms(1) 2 e e'
      by simp
  qed
  from 1 2 4 have 6: \<open>generateInit kpub kpriv kpub' kpriv' kall ktopics ksubs r s =
           Inr (''{"sys":['' @ intercalate '',''
                  ((if range_vals ktopics (GetTopics kpub kpriv (heap s ! r) s) = [] then []
                    else [''{"type":"topics","list":['' @ intercalate '',''
                            (map (\<lambda>t. ''{"name":'' @ quote (Name t)
                                        @ (if Type t = [] then [] else '',"type":'' @ quote (Type t))
                                        @ ''}'')
                               (range_vals ktopics (GetTopics kpub kpriv (heap s ! r) s))) @ '']}''])
                   @ (if range_vals ksubs (GetSubscribedTopics kpub' kpriv' kall (heap s ! r) s) = []
                      then []
                      else [''{"type":"subscribed","list":['' @ intercalate '',''
                              (map (\<lambda>t. ''{"name":'' @ quote (Name t) @ ''}'')
                                 (range_vals ksubs
                                    (GetSubscribedTopics kpub' kpriv' kall (heap s ! r) s)))
                              @ '']}'']))
                @ ''],"updates":null}'')
       \<and> sendNewTopicsList kpub kpriv ktopics r s =
           push_if_receving r
             (''{"sys":[''
                @ (if range_vals ktopics (GetTopics kpub kpriv (heap s ! r) s) = [] then []
                   else ''{"type":"topics","list":['' @ intercalate '',''
                          (map (\<lambda>t. ''{"name":'' @ quote (Name t)
                                      @ (if Type t = [] then [] else '',"type":'' @ quote (Type t))
                                      @ ''}'')
                             (range_vals ktopics (GetTopics kpub kpriv (heap s ! r) s))) @ '']}'')
                @ ''],"updates":null}'') s
       \<and> sendUpdate r t d s =
           (case marshal_json d of
              None \<Rightarrow> (Some MarshalError, s)
            | Some j \<Rightarrow>
                push_if_receving r
                  (''{"sys":null,"updates":[{"topic":'' @ quote (Name t) @ '',"data":'' @ j @ ''}]}'') s)
       \<and> (\<forall>r' s'. r' < length (heap s') \<and> client_id (heap s' ! r') = client_id (heap s ! r)
                   \<and> privateTopics (heap s' ! r') = privateTopics (heap s ! r)
                   \<and> publicTopics s' = publicTopics s \<longrightarrow>
              generateInit kpub kpriv kpub' kpriv' kall ktopics ksubs r' s'
                = generateInit kpub kpriv kpub' kpriv' kall ktopics ksubs r s
              \<and> GetTopics kpub kpriv (heap s' ! r') s' = GetTopics kpub kpriv (heap s ! r) s)\<close>
    by (simp only: sendUpdate_eq) simp
  from 6 5 show ?thesis by blast
qed

text \<open>
  The client of scenario A: the two orders of its topics give the two lists. A client
  without topics gets the frame with the empty \<^verbatim>\<open>sys\<close>. The waiting and the receiving
  \<^verbatim>\<open>c1\<close> get the same initial frame.
\<close>

theorem encoder_frames_witness:
  \<open>0 < length (heap scenario_s2)
   \<and> go_order [''news''] (publicTopics scenario_s2)
   \<and> go_order [''orders''] (privateTopics (heap scenario_s2 ! 0))
   \<and> go_order [''news'', ''orders''] (GetTopics [''news''] [''orders''] (heap scenario_s2 ! 0) scenario_s2)
   \<and> go_order [''orders'', ''news''] (GetTopics [''news''] [''orders''] (heap scenario_s2 ! 0) scenario_s2)
   \<and> generateInit [''news''] [''orders''] [''news''] [''orders''] [''news'', ''orders'']
        [''news'', ''orders''] [''orders''] 0 scenario_s2
       = Inr ''{"sys":[{"type":"topics","list":[{"name":"news","type":"public"},{"name":"orders","type":"private"}]},{"type":"subscribed","list":[{"name":"orders"}]}],"updates":null}''
   \<and> generateInit [''news''] [''orders''] [''news''] [''orders''] [''news'', ''orders'']
        [''orders'', ''news''] [''orders''] 0 scenario_s2
       = Inr ''{"sys":[{"type":"topics","list":[{"name":"orders","type":"private"},{"name":"news","type":"public"}]},{"type":"subscribed","list":[{"name":"orders"}]}],"updates":null}''
   \<and> 0 < length (heap ex_empty)
   \<and> go_order [] (publicTopics ex_empty)
   \<and> go_order [] (privateTopics (heap ex_empty ! 0))
   \<and> go_order [] (GetTopics [] [] (heap ex_empty ! 0) ex_empty)
   \<and> range_vals [] (GetTopics [] [] (heap ex_empty ! 0) ex_empty) = []
   \<and> generateInit [] [] [] [] [] [] [] 0 ex_empty = Inr ''{"sys":[],"updates":null}''
   \<and> sendNewTopicsList [] [] [] 0 ex_empty = push_if_receving 0 ''{"sys":[],"updates":null}'' ex_empty
   \<and> 0 < length (heap (ex_hub Receving Map.empty))
   \<and> client_id (heap (ex_hub Receving Map.empty) ! 0) = client_id (heap (ex_hub Waiting Map.empty) ! 0)
   \<and> privateTopics (heap (ex_hub Receving Map.empty) ! 0)
       = privateTopics (heap (ex_hub Waiting Map.empty) ! 0)
   \<and> publicTopics (ex_hub Receving Map.empty) = publicTopics (ex_hub Waiting Map.empty)
   \<and> generateInit [''news''] [] [''news''] [] [''news''] [''news''] [] 0 (ex_hub Receving Map.empty)
       = generateInit [''news''] [] [''news''] [] [''news''] [''news''] [] 0 (ex_hub Waiting Map.empty)\<close>
proof -
  let ?s = scenario_s2
  have a: "0 < length (heap ?s)"
    and b: "go_order [''news''] (publicTopics ?s)"
    and c: "go_order [''orders''] (privateTopics (heap ?s ! 0))"
    and d: "go_order [''news'', ''orders''] (GetTopics [''news''] [''orders''] (heap ?s ! 0) ?s)"
    and d': "go_order [''orders'', ''news''] (GetTopics [''news''] [''orders''] (heap ?s ! 0) ?s)"
    by (simp_all add: eval_defs ex_defs insert_commute)
  have e: "0 < length (heap ex_empty)"
    and f: "go_order [] (publicTopics ex_empty)"
    and g: "go_order [] (privateTopics (heap ex_empty ! 0))"
    and h: "go_order [] (GetTopics [] [] (heap ex_empty ! 0) ex_empty)"
    and h': "range_vals [] (GetTopics [] [] (heap ex_empty ! 0) ex_empty) = []"
    by (simp_all add: eval_defs ex_defs)
  let ?w = "ex_hub Waiting Map.empty" and ?v = "ex_hub Receving Map.empty"
  have i: "0 < length (heap ?w)"
    and j: "go_order [''news''] (publicTopics ?w)"
    and k: "go_order [] (privateTopics (heap ?w ! 0))"
    and l: "go_order [''news''] (GetTopics [''news''] [] (heap ?w ! 0) ?w)"
    and m: "0 < length (heap ?v)"
    and n: "client_id (heap ?v ! 0) = client_id (heap ?w ! 0)"
    and o: "privateTopics (heap ?v ! 0) = privateTopics (heap ?w ! 0)"
    and p: "publicTopics ?v = publicTopics ?w"
    by (simp_all add: eval_defs)
  have q: \<open>generateInit [''news''] [''orders''] [''news''] [''orders''] [''news'', ''orders'']
        [''news'', ''orders''] [''orders''] 0 scenario_s2
       = Inr ''{"sys":[{"type":"topics","list":[{"name":"news","type":"public"},{"name":"orders","type":"private"}]},{"type":"subscribed","list":[{"name":"orders"}]}],"updates":null}''\<close>
    and q': \<open>generateInit [''news''] [''orders''] [''news''] [''orders''] [''news'', ''orders'']
        [''orders'', ''news''] [''orders''] 0 scenario_s2
       = Inr ''{"sys":[{"type":"topics","list":[{"name":"orders","type":"private"},{"name":"news","type":"public"}]},{"type":"subscribed","list":[{"name":"orders"}]}],"updates":null}''\<close>
    by (simp_all add: eval_defs ex_defs)
  have u: \<open>generateInit [] [] [] [] [] [] [] 0 ex_empty = Inr ''{"sys":[],"updates":null}''\<close>
    by (simp add: eval_defs ex_defs)
  have v: \<open>sendNewTopicsList [] [] [] 0 ex_empty = push_if_receving 0 ''{"sys":[],"updates":null}'' ex_empty\<close>
    by (simp add: eval_defs ex_defs)
  note A = encoder_frames [OF a b c d, of "[''news'']" "[''orders'']" "[''news'', ''orders'']" "[''orders'']"]
  note B = encoder_frames [OF a b c d', of "[''news'']" "[''orders'']" "[''news'', ''orders'']" "[''orders'']"]
  note C = encoder_frames [OF e f g h, of "[]" "[]" "[]" "[]"]
  note D = encoder_frames [OF i j k l, of "[''news'']" "[]" "[''news'']" "[]"]
  from D m n o p
  have z: "generateInit [''news''] [] [''news''] [] [''news''] [''news''] [] 0 ?v
       = generateInit [''news''] [] [''news''] [] [''news''] [''news''] [] 0 ?w"
    by blast
  from A B C a b c d d' e f g h h' m n o p q q' u v z show ?thesis by blast
qed

text \<open>
  C8 as stated fails twice. With nothing to report, \<^verbatim>\<open>generateInit\<close> and
  \<^verbatim>\<open>sendNewTopicsList\<close> still write a frame, with an empty \<^verbatim>\<open>sys\<close> array. And the string
  depends on the order in which the range over \<^verbatim>\<open>topics\<close> runs, which Go leaves open:
  for the client of scenario A, with the topics \<^verbatim>\<open>news\<close> and \<^verbatim>\<open>orders\<close>, the two orders
  give two different strings.
\<close>

theorem encoder_frames_counterexample:
  \<open>generateInit [] [] [] [] [] [] [] 0 ex_empty = Inr ''{"sys":[],"updates":null}''
   \<and> snd (sendNewTopicsList [] [] [] 0
            (set_client 0 ((heap ex_empty ! 0)\<lparr>status := Receving\<rparr>) ex_empty))
       = set_client 0 ((heap ex_empty ! 0)\<lparr>status := Receving,
                         stream := [''{"sys":[],"updates":null}'']\<rparr>) ex_empty
   \<and> go_order [''news'', ''orders''] (GetTopics [''news''] [''orders''] (heap scenario_s1 ! 0) scenario_s1)
   \<and> go_order [''orders'', ''news''] (GetTopics [''news''] [''orders''] (heap scenario_s1 ! 0) scenario_s1)
   \<and> generateInit [''news''] [''orders''] [''news''] [''orders''] [''news'', ''orders'']
         [''news'', ''orders''] [] 0 scenario_s1
       \<noteq> generateInit [''news''] [''orders''] [''news''] [''orders''] [''news'', ''orders'']
         [''orders'', ''news''] [] 0 scenario_s1\<close>
  by (simp add: eval_defs ex_defs insert_commute)

text \<open>
  C9, as amended. For a client whose id is already in the subscriber map of the topic
  the name stands for, \<^verbatim>\<open>Sub(name)\<close> again returns no error and leaves the ids of the
  subscribers of every topic as they were; in the topic of the name the id is bound to
  this client object afterwards. A client that is \<^verbatim>\<open>Receving\<close> gets one more
  \<^verbatim>\<open>subscribed\<close> frame at the end of its stream; for a client that is \<^verbatim>\<open>Waiting\<close> the frame
  is dropped and its stream is as before. No other client object changes, nor the
  client map, nor the status and the id of the client. Where the id was bound to this
  client object already and the client is \<^verbatim>\<open>Waiting\<close>, the handler is left exactly as it
  was.
\<close>

theorem Sub_again:
  assumes "r < length (heap s)"
    and "resolve r name s = Some t"
    and "Clients t (client_id (heap s ! r)) \<noteq> None"
  shows \<open>fst (Sub r name s) = None
       \<and> resolve r name (snd (Sub r name s))
           = Some (t\<lparr>Clients := (Clients t)(client_id (heap s ! r) \<mapsto> r)\<rparr>)
       \<and> dom ((Clients t)(client_id (heap s ! r) \<mapsto> r)) = dom (Clients t)
       \<and> (\<forall>k. map_option (dom \<circ> Clients) (publicTopics (snd (Sub r name s)) k)
                = map_option (dom \<circ> Clients) (publicTopics s k))
       \<and> (\<forall>q k. map_option (dom \<circ> Clients) (privateTopics (heap (snd (Sub r name s)) ! q) k)
                = map_option (dom \<circ> Clients) (privateTopics (heap s ! q) k))
       \<and> stream (heap (snd (Sub r name s)) ! r)
           = stream (heap s ! r)
             @ (if status (heap s ! r) = Receving
                then [''{"sys":[{"type":"subscribed","list":[{"name":'' @ quote (Name t)
                        @ ''}]}],"updates":null}'']
                else [])
       \<and> (\<forall>q. q \<noteq> r \<longrightarrow> heap (snd (Sub r name s)) ! q = heap s ! q)
       \<and> length (heap (snd (Sub r name s))) = length (heap s)
       \<and> clients (snd (Sub r name s)) = clients s
       \<and> status (heap (snd (Sub r name s)) ! r) = status (heap s ! r)
       \<and> client_id (heap (snd (Sub r name s)) ! r) = client_id (heap s ! r)
       \<and> (Clients t (client_id (heap s ! r)) = Some r \<and> status (heap s ! r) = Waiting
            \<longrightarrow> snd (Sub r name s) = s)\<close>
proof -
  let ?c = "heap s ! r"
  let ?i = "client_id ?c"
  let ?t' = "t\<lparr>Clients := (Clients t)(?i \<mapsto> r)\<rparr>"
  let ?frame = \<open>''{"sys":[{"type":"subscribed","list":[{"name":'' @ quote (Name t)
                        @ ''}]}],"updates":null}''\<close>
  let ?s' = "snd (Sub r name s)"
  have d: "dom ((Clients t)(?i \<mapsto> r)) = dom (Clients t)"
    using assms(3) by auto
  have same: "Clients t ?i = Some r \<Longrightarrow> ?t' = t"
    by (simp add: map_upd_triv)
  have "\<exists>s0. Sub r name s = (None, snd (push_if_receving r ?frame s0))
           \<and> length (heap s0) = length (heap s)
           \<and> clients s0 = clients s
           \<and> (\<forall>q. q \<noteq> r \<longrightarrow> heap s0 ! q = heap s ! q)
           \<and> stream (heap s0 ! r) = stream ?c \<and> status (heap s0 ! r) = status ?c
           \<and> client_id (heap s0 ! r) = ?i
           \<and> resolve r name s0 = Some ?t'
           \<and> (\<forall>k. map_option (dom \<circ> Clients) (publicTopics s0 k)
                    = map_option (dom \<circ> Clients) (publicTopics s k))
           \<and> (\<forall>q k. map_option (dom \<circ> Clients) (privateTopics (heap s0 ! q) k)
                    = map_option (dom \<circ> Clients) (privateTopics (heap s ! q) k))
           \<and> (?t' = t \<longrightarrow> s0 = s)"
  proof (cases "privateTopics ?c name")
    case None
    with assms(2) have pub: "publicTopics s name = Some t" by (simp add: resolve_def)
    let ?s0 = "s\<lparr>publicTopics := (publicTopics s)(name \<mapsto> ?t')\<rparr>"
    have "?t' = t \<longrightarrow> ?s0 = s" using pub by (simp add: map_upd_triv)
    moreover have "\<forall>k. map_option (dom \<circ> Clients) (publicTopics ?s0 k)
                    = map_option (dom \<circ> Clients) (publicTopics s k)"
      using pub d by simp
    moreover have "resolve r name ?s0 = Some ?t'" using None by (simp add: resolve_def)
    ultimately show ?thesis
      using Sub_public [OF assms(1) None pub] by (intro exI [of _ ?s0]) simp
  next
    case (Some t0)
    with assms(2) have priv: "privateTopics ?c name = Some t" by (simp add: resolve_def)
    let ?s0 = "set_client r (?c\<lparr>privateTopics := (privateTopics ?c)(name \<mapsto> ?t')\<rparr>) s"
    have "?t' = t \<longrightarrow> ?s0 = s"
      using priv assms(1) by (simp add: map_upd_triv set_client_same)
    moreover have "\<forall>q k. map_option (dom \<circ> Clients) (privateTopics (heap ?s0 ! q) k)
                    = map_option (dom \<circ> Clients) (privateTopics (heap s ! q) k)"
      using priv d assms(1) by (simp add: set_client_def nth_list_update)
    moreover have "resolve r name ?s0 = Some ?t'" using assms(1) by (simp add: resolve_def)
    ultimately show ?thesis
      using Sub_private [OF assms(1) priv] assms(1) by (intro exI [of _ ?s0]) simp
  qed
  then obtain s0 where eq: "Sub r name s = (None, snd (push_if_receving r ?frame s0))"
    and l0: "length (heap s0) = length (heap s)"
    and c0: "clients s0 = clients s"
    and o0: "\<forall>q. q \<noteq> r \<longrightarrow> heap s0 ! q = heap s ! q"
    and st0: "stream (heap s0 ! r) = stream ?c" and sta0: "status (heap s0 ! r) = status ?c"
    and i0: "client_id (heap s0 ! r) = ?i"
    and r0: "resolve r name s0 = Some ?t'"
    and pub0: "\<forall>k. map_option (dom \<circ> Clients) (publicTopics s0 k)
                    = map_option (dom \<circ> Clients) (publicTopics s k)"
    and priv0: "\<forall>q k. map_option (dom \<circ> Clients) (privateTopics (heap s0 ! q) k)
                    = map_option (dom \<circ> Clients) (privateTopics (heap s ! q) k)"
    and triv0: "?t' = t \<longrightarrow> s0 = s"
    by blast
  have rl: "r < length (heap s0)" using assms(1) l0 by simp
  have 1: "fst (Sub r name s) = None" by (simp add: eq)
  have 2: "resolve r name ?s' = Some ?t'" using r0 by (simp add: eq)
  have 4: "\<forall>k. map_option (dom \<circ> Clients) (publicTopics ?s' k)
                = map_option (dom \<circ> Clients) (publicTopics s k)"
    using pub0 by (simp add: eq)
  have 5: "\<forall>q k. map_option (dom \<circ> Clients) (privateTopics (heap ?s' ! q) k)
                = map_option (dom \<circ> Clients) (privateTopics (heap s ! q) k)"
    using priv0 by (simp add: eq)
  have 6: "stream (heap ?s' ! r) = stream ?c @ (if status ?c = Receving then [?frame] else [])"
    using st0 sta0 by (simp add: eq push_stream [OF rl])
  have 7: "\<forall>q. q \<noteq> r \<longrightarrow> heap ?s' ! q = heap s ! q"
    using o0 by (simp add: eq push_other)
  have 8: "length (heap ?s') = length (heap s)" using l0 by (simp add: eq)
  have 9: "clients ?s' = clients s" using c0 by (simp add: eq)
  have 10: "status (heap ?s' ! r) = status ?c" using sta0 by (simp add: eq)
  have 11: "client_id (heap ?s' ! r) = ?i" using i0 by (simp add: eq)
  have 12: "Clients t ?i = Some r \<and> status ?c = Waiting \<longrightarrow> ?s' = s"
    using same triv0 rl by (auto simp: eq push_snd)
  from 1 2 d 4 5 6 7 8 9 10 11 12 show ?thesis by blast
qed

text \<open>
  The receiving \<^verbatim>\<open>c1\<close> subscribes to \<^verbatim>\<open>news\<close> again and gets the frame. The second client
  created under the id \<^verbatim>\<open>c1\<close> finds the id in the public topic \<^verbatim>\<open>x\<close>, bound to the removed
  client object: \<^verbatim>\<open>Sub\<close> binds it to the new one and, the client waiting, sends nothing.
\<close>

theorem Sub_again_witness:
  \<open>0 < length (heap (ex_hub Receving [''c1'' \<mapsto> 0]))
   \<and> resolve 0 ''news'' (ex_hub Receving [''c1'' \<mapsto> 0])
       = Some \<lparr>Name = ''news'', Type = Public, Clients = [''c1'' \<mapsto> 0]\<rparr>
   \<and> fst (Sub 0 ''news'' (ex_hub Receving [''c1'' \<mapsto> 0])) = None
   \<and> resolve 0 ''news'' (snd (Sub 0 ''news'' (ex_hub Receving [''c1'' \<mapsto> 0])))
       = Some \<lparr>Name = ''news'', Type = Public, Clients = [''c1'' \<mapsto> 0]\<rparr>
   \<and> stream (heap (snd (Sub 0 ''news'' (ex_hub Receving [''c1'' \<mapsto> 0]))) ! 0)
       = [''{"sys":[{"type":"subscribed","list":[{"name":"news"}]}],"updates":null}'']
   \<and> 1 < length (heap shadow_s5)
   \<and> client_id (heap shadow_s5 ! 1) = ''c1''
   \<and> status (heap shadow_s5 ! 1) = Waiting
   \<and> resolve 1 ''x'' shadow_s5 = Some \<lparr>Name = ''x'', Type = Public, Clients = [''c1'' \<mapsto> 0]\<rparr>
   \<and> fst (Sub 1 ''x'' shadow_s5) = None
   \<and> resolve 1 ''x'' (snd (Sub 1 ''x'' shadow_s5))
       = Some \<lparr>Name = ''x'', Type = Public, Clients = [''c1'' \<mapsto> 1]\<rparr>
   \<and> stream (heap (snd (Sub 1 ''x'' shadow_s5)) ! 1) = []\<close>
proof -
  let ?s = "ex_hub Receving [''c1'' \<mapsto> 0]"
  let ?t = "\<lparr>Name = ''news'', Type = Public, Clients = [''c1'' \<mapsto> 0]\<rparr>"
  let ?x = "\<lparr>Name = ''x'', Type = Public, Clients = [''c1'' \<mapsto> 0]\<rparr>"
  have a: "0 < length (heap ?s)" by (simp add: ex_hub_def)
  have b: "resolve 0 ''news'' ?s = Some ?t" by (simp add: resolve_def ex_hub_def)
  have c: "Clients ?t (client_id (heap ?s ! 0)) \<noteq> None" by (simp add: ex_hub_def)
  have d: "1 < length (heap shadow_s5)"
    and e: "resolve 1 ''x'' shadow_s5 = Some ?x"
    and f: "Clients ?x (client_id (heap shadow_s5 ! 1)) \<noteq> None"
    and g: "client_id (heap shadow_s5 ! 1) = ''c1''"
    and h: "status (heap shadow_s5 ! 1) = Waiting"
    by (simp_all add: eval_defs ex_defs2)
  have i: "status (heap ?s ! 0) = Receving" and j: "client_id (heap ?s ! 0) = ''c1''"
    by (simp_all add: ex_hub_def)
  have k: \<open>quote ''news'' = ''"news"''\<close>
    by (simp add: quote_def escape_char_def)
  from Sub_again [OF a b c]
  have A1: "fst (Sub 0 ''news'' ?s) = None"
    and A2: "resolve 0 ''news'' (snd (Sub 0 ''news'' ?s))
               = Some (?t\<lparr>Clients := (Clients ?t)(client_id (heap ?s ! 0) \<mapsto> 0)\<rparr>)"
    and A3: \<open>stream (heap (snd (Sub 0 ''news'' ?s)) ! 0)
           = stream (heap ?s ! 0)
             @ (if status (heap ?s ! 0) = Receving
                then [''{"sys":[{"type":"subscribed","list":[{"name":'' @ quote (Name ?t)
                        @ ''}]}],"updates":null}'']
                else [])\<close>
    by blast+
  from Sub_again [OF d e f]
  have B1: "fst (Sub 1 ''x'' shadow_s5) = None"
    and B2: "resolve 1 ''x'' (snd (Sub 1 ''x'' shadow_s5))
               = Some (?x\<lparr>Clients := (Clients ?x)(client_id (heap shadow_s5 ! 1) \<mapsto> 1)\<rparr>)"
    and B3: \<open>stream (heap (snd (Sub 1 ''x'' shadow_s5)) ! 1)
           = stream (heap shadow_s5 ! 1)
             @ (if status (heap shadow_s5 ! 1) = Receving
                then [''{"sys":[{"type":"subscribed","list":[{"name":'' @ quote (Name ?x)
                        @ ''}]}],"updates":null}'']
                else [])\<close>
    by blast+
  have l: "stream (heap ?s ! 0) = []" by (simp add: ex_hub_def)
  have m: "stream (heap shadow_s5 ! 1) = []" by (simp add: eval_defs ex_defs2)
  from A1 A2 A3 B1 B2 B3 a b d e g h i j k l m show ?thesis
    by (simp add: map_upd_triv)
qed

text \<open>
  C9 as stated fails for a subscriber that is \<^verbatim>\<open>Waiting\<close>: the repeated \<^verbatim>\<open>Sub\<close> returns no
  error and leaves the handler as it was, the stream of the client still empty.
\<close>

theorem Sub_again_counterexample:
  "map_option (\<lambda>t. Clients t ''c1'') (resolve 0 ''news'' (ex_hub Waiting [''c1'' \<mapsto> 0])) = Some (Some 0)
   \<and> Sub 0 ''news'' (ex_hub Waiting [''c1'' \<mapsto> 0]) = (None, ex_hub Waiting [''c1'' \<mapsto> 0])
   \<and> stream (heap (snd (Sub 0 ''news'' (ex_hub Waiting [''c1'' \<mapsto> 0]))) ! 0) = []"
  by (simp add: eval_defs)

text \<open>
  C10. \<^verbatim>\<open>generateInit\<close> never indexes \<^verbatim>\<open>Sys\<close> out of range: for every client object and
  all orders in which the ranges may run (the orders of the client's two maps and of
  \<^verbatim>\<open>topics\<close> being orders of these maps, the others any lists), it returns a frame and
  no error. The subscribed topics are some of the topics of \<^verbatim>\<open>GetTopics\<close>, so a
  subscribed topic comes from the client's maps and \<^verbatim>\<open>Sys\<close> has two entries when the
  loop over the subscribed topics writes \<^verbatim>\<open>Sys[1]\<close>.
\<close>

theorem generateInit_total:
  assumes "r < length (heap s)"
    and "go_order kpub (publicTopics s)"
    and "go_order kpriv (privateTopics (heap s ! r))"
    and "go_order ktopics (GetTopics kpub kpriv (heap s ! r) s)"
  shows "(\<exists>jsonData. generateInit kpub kpriv kpub' kpriv' kall ktopics ksubs r s = Inr jsonData)
       \<and> GetSubscribedTopics kpub' kpriv' kall (heap s ! r) s \<subseteq>\<^sub>m GetTopics kpub' kpriv' (heap s ! r) s"
proof -
  let ?c = "heap s ! r"
  let ?topics = "range_vals ktopics (GetTopics kpub kpriv ?c s)"
  let ?subs = "range_vals ksubs (GetSubscribedTopics kpub' kpriv' kall ?c s)"
  have imp: "?subs \<noteq> [] \<Longrightarrow> ?topics \<noteq> []"
    using subs_imply_topics [OF assms(2,3,4)] .
  have total: "\<exists>jsonData. generateInit kpub kpriv kpub' kpriv' kall ktopics ksubs r s = Inr jsonData"
  proof (cases "?topics = []")
    case True
    with imp have "?subs = []" by blast
    with True assms(1) show ?thesis
      by (simp add: generateInit_def Let_def len_def marshal_sys_only)
  next
    case False
    show ?thesis
    proof (cases "?subs = []")
      case True
      from sys_loop_ok [of 0 "[emptySys]" "''topics''" "map topic_entry ?topics"]
      obtain sys' where "sys_loop 0 ''topics'' (map topic_entry ?topics) [emptySys] = Inr sys'"
        by auto
      with True False assms(1) show ?thesis
        by (simp add: generateInit_def Let_def len_def marshal_sys_only)
    next
      case nonempty: False
      from sys_loop_ok [of 0 "[emptySys, emptySys]" "''topics''" "map topic_entry ?topics"]
      obtain sys' where 1: "sys_loop 0 ''topics'' (map topic_entry ?topics) [emptySys, emptySys] = Inr sys'"
        and l: "length sys' = 2" by auto
      from sys_loop_ok [of 1 sys' "''subscribed''" "map name_entry ?subs"] l
      obtain sys'' where 2: "sys_loop 1 ''subscribed'' (map name_entry ?subs) sys' = Inr sys''"
        by auto
      from 1 2 nonempty False assms(1) show ?thesis
        by (simp add: generateInit_def Let_def len_def marshal_sys_only)
    qed
  qed
  with GetSubscribedTopics_le [of kpub' kpriv' kall ?c s] show ?thesis by simp
qed

text \<open>The client \<^verbatim>\<open>c1\<close>, subscribed to \<^verbatim>\<open>news\<close>: both entries of \<^verbatim>\<open>Sys\<close> are written.\<close>

theorem generateInit_total_witness:
  \<open>0 < length (heap (ex_hub Waiting [''c1'' \<mapsto> 0]))
   \<and> go_order [''news''] (publicTopics (ex_hub Waiting [''c1'' \<mapsto> 0]))
   \<and> go_order [] (privateTopics (heap (ex_hub Waiting [''c1'' \<mapsto> 0]) ! 0))
   \<and> go_order [''news'']
        (GetTopics [''news''] [] (heap (ex_hub Waiting [''c1'' \<mapsto> 0]) ! 0) (ex_hub Waiting [''c1'' \<mapsto> 0]))
   \<and> (\<exists>jsonData. generateInit [''news''] [] [''news''] [] [''news''] [''news''] [''news''] 0
                    (ex_hub Waiting [''c1'' \<mapsto> 0]) = Inr jsonData)
   \<and> generateInit [''news''] [] [''news''] [] [''news''] [''news''] [''news''] 0 (ex_hub Waiting [''c1'' \<mapsto> 0])
       = Inr ''{"sys":[{"type":"topics","list":[{"name":"news","type":"public"}]},{"type":"subscribed","list":[{"name":"news"}]}],"updates":null}''\<close>
proof -
  let ?s = "ex_hub Waiting [''c1'' \<mapsto> 0]"
  have a: "0 < length (heap ?s)" by (simp add: ex_hub_def)
  have b: "go_order [''news''] (publicTopics ?s)" by (simp add: go_order_def ex_hub_def)
  have c: "go_order [] (privateTopics (heap ?s ! 0))" by (simp add: go_order_def ex_hub_def)
  have d: "go_order [''news''] (GetTopics [''news''] [] (heap ?s ! 0) ?s)" by (simp add: eval_defs)
  have e: \<open>generateInit [''news''] [] [''news''] [] [''news''] [''news''] [''news''] 0 ?s
       = Inr ''{"sys":[{"type":"topics","list":[{"name":"news","type":"public"}]},{"type":"subscribed","list":[{"name":"news"}]}],"updates":null}''\<close>
    by (simp add: eval_defs)
  from generateInit_total [OF a b c d, of "[''news'']" "[]" "[''news'']" "[''news'']"] a b c d e
  show ?thesis by simp
qed

end
